theory Spec2Isabelle
  imports Main "HOL-Library.Sublist"
begin

text \<open>
  A model of the CSS merge plugin of \<open>src/index.ts\<close>: the file system it works on, the
  fragment scanner, the change detector, the merge loop, the publisher, and the operations
  \<open>onSuccess\<close> (refresh), \<open>onClear\<close> and \<open>dispose\<close>.  Console output is not part of the model;
  the \<open>verbose\<close> flag is kept because one branch of \<open>onSuccess\<close> depends on it.
\<close>

section \<open>Strings and paths\<close>

text \<open>
  Strings are lists of characters.  \<open>String.prototype.trim\<close> removes leading and trailing
  white space; the characters counted as white space here are the ASCII ones (tab, line
  feed, vertical tab, form feed, carriage return, space).
\<close>

definition whitespace :: "char \<Rightarrow> bool" where
  "whitespace c \<longleftrightarrow> c \<in> set [CHR 0x09, CHR 0x0A, CHR 0x0B, CHR 0x0C, CHR 0x0D, CHR 0x20]"

definition trim :: "string \<Rightarrow> string" where
  "trim s = rev (dropWhile whitespace (rev (dropWhile whitespace s)))"

text \<open>\<open>Array.prototype.join\<close>: the elements with the separator between adjacent ones.\<close>

fun join :: "string \<Rightarrow> string list \<Rightarrow> string" where
  "join sep [] = []"
| "join sep [x] = x"
| "join sep (x # y # ys) = x @ sep @ join sep (y # ys)"

type_synonym path = string

text \<open>
  \<open>path.join(dir, name)\<close> for a normalised directory and a plain entry name, which is how the
  program uses it: the two parts with one separator.
\<close>

definition path_join :: "path \<Rightarrow> string \<Rightarrow> path" where
  "path_join dir name = dir @ ''/'' @ name"

section \<open>The file system\<close>

text \<open>
  A flat name space of absolute paths.  A path holds a regular file with its content, a
  symbolic link with its target, or a directory.  Parent directories are not tracked: an
  operation fails for what is found at the path itself (or at the end of its link chain),
  and an operation that fails changes nothing.
\<close>

datatype node = File string | Symlink path | Dir

datatype error = ENOENT | EEXIST | EINVAL | EISDIR | ENOTDIR | ELOOP | EACCES | CssSyntaxError

text \<open>The mutations of the file system, in the order they happen.\<close>

datatype event =
    Created path
  | Written path string
  | Unlinked path
  | Linked path path
  | MadeDir path

datatype handle = FileHandle path

text \<open>
  The state a call runs in: the file system, the record of its mutations, and the
  variables the plugin closure captures (\<open>lastKnownFiles\<close>, \<open>lastKnownHash\<close> and the two
  file handles).
\<close>

record state =
  nodes :: "path \<Rightarrow> node option"
  trace :: "event list"
  lastKnownFiles :: "path set"
  lastKnownHash :: string
  tempFileHandle :: "handle option"
  backupFileHandle :: "handle option"

text \<open>
  An asynchronous operation either resolves with a value or rejects with an error; in both
  cases the mutations made so far stay.
\<close>

type_synonym 'a io = "state \<Rightarrow> (error + 'a) \<times> state"

definition ret :: "'a \<Rightarrow> 'a io" where
  "ret x = (\<lambda>s. (Inr x, s))"

definition throw :: "error \<Rightarrow> 'a io" where
  "throw e = (\<lambda>s. (Inl e, s))"

definition bind_io :: "'a io \<Rightarrow> ('a \<Rightarrow> 'b io) \<Rightarrow> 'b io" where
  "bind_io m f = (\<lambda>s. case m s of (Inl e, s') \<Rightarrow> (Inl e, s') | (Inr x, s') \<Rightarrow> f x s')"

definition try_catch :: "'a io \<Rightarrow> (error \<Rightarrow> 'a io) \<Rightarrow> 'a io" where
  "try_catch m h = (\<lambda>s. case m s of (Inl e, s') \<Rightarrow> h e s' | (Inr x, s') \<Rightarrow> (Inr x, s'))"

definition lift :: "(error + 'a) \<Rightarrow> 'a io" where
  "lift r = (\<lambda>s. (r, s))"

text \<open>
  Following symbolic links, at most 40 of them in a row (the limit of Linux; beyond it the
  operation fails with \<open>ELOOP\<close>).
\<close>

fun follow :: "nat \<Rightarrow> (path \<Rightarrow> node option) \<Rightarrow> path \<Rightarrow> error + path" where
  "follow 0 fs p = (case fs p of Some (Symlink t) \<Rightarrow> Inl ELOOP | _ \<Rightarrow> Inr p)"
| "follow (Suc n) fs p = (case fs p of Some (Symlink t) \<Rightarrow> follow n fs t | _ \<Rightarrow> Inr p)"

definition resolve :: "(path \<Rightarrow> node option) \<Rightarrow> path \<Rightarrow> error + path" where
  "resolve fs p = follow 40 fs p"

text \<open>\<open>fs.promises.readlink\<close>: the target of a link, without following it.\<close>

definition readlink :: "path \<Rightarrow> path io" where
  "readlink p = (\<lambda>s. case nodes s p of
       Some (Symlink t) \<Rightarrow> (Inr t, s)
     | Some _ \<Rightarrow> (Inl EINVAL, s)
     | None \<Rightarrow> (Inl ENOENT, s))"

text \<open>\<open>fs.existsSync\<close>: follows links; false for a dangling link or a loop.\<close>

definition existsSync :: "(path \<Rightarrow> node option) \<Rightarrow> path \<Rightarrow> bool" where
  "existsSync fs p = (case resolve fs p of Inl e \<Rightarrow> False | Inr q \<Rightarrow> fs q \<noteq> None)"

text \<open>\<open>fs.promises.readFile\<close>: follows links.\<close>

definition read_file :: "(path \<Rightarrow> node option) \<Rightarrow> path \<Rightarrow> error + string" where
  "read_file fs p = (case resolve fs p of
       Inl e \<Rightarrow> Inl e
     | Inr q \<Rightarrow> (case fs q of
           Some (File c) \<Rightarrow> Inr c
         | Some Dir \<Rightarrow> Inl EISDIR
         | Some (Symlink t) \<Rightarrow> Inl ELOOP
         | None \<Rightarrow> Inl ENOENT))"

definition readFile :: "path \<Rightarrow> string io" where
  "readFile p = (\<lambda>s. (read_file (nodes s) p, s))"

text \<open>
  \<open>fs.promises.writeFile\<close>: follows links, creates the file or replaces its content.  The
  recorded event names the file that was really written.
\<close>

definition writeFile :: "path \<Rightarrow> string \<Rightarrow> unit io" where
  "writeFile p c = (\<lambda>s. case resolve (nodes s) p of
       Inl e \<Rightarrow> (Inl e, s)
     | Inr q \<Rightarrow> (case nodes s q of
           Some Dir \<Rightarrow> (Inl EISDIR, s)
         | _ \<Rightarrow> (Inr (), s\<lparr>nodes := (nodes s)(q \<mapsto> File c), trace := trace s @ [Written q c]\<rparr>)))"

text \<open>\<open>fs.promises.open(p, 'a+')\<close>: follows links, creates an empty file when there is none.\<close>

definition open_append :: "path \<Rightarrow> handle io" where
  "open_append p = (\<lambda>s. case resolve (nodes s) p of
       Inl e \<Rightarrow> (Inl e, s)
     | Inr q \<Rightarrow> (case nodes s q of
           Some Dir \<Rightarrow> (Inl EISDIR, s)
         | Some _ \<Rightarrow> (Inr (FileHandle q), s)
         | None \<Rightarrow> (Inr (FileHandle q),
                    s\<lparr>nodes := (nodes s)(q \<mapsto> File []), trace := trace s @ [Created q]\<rparr>)))"

text \<open>\<open>fs.promises.unlink\<close>: removes a file or a link, never a directory.\<close>

definition unlink :: "path \<Rightarrow> unit io" where
  "unlink p = (\<lambda>s. case nodes s p of
       None \<Rightarrow> (Inl ENOENT, s)
     | Some Dir \<Rightarrow> (Inl EISDIR, s)
     | Some _ \<Rightarrow> (Inr (), s\<lparr>nodes := (nodes s)(p := None), trace := trace s @ [Unlinked p]\<rparr>))"

text \<open>\<open>fs.promises.symlink(target, p)\<close>: fails when anything is at \<open>p\<close> already.\<close>

definition symlink :: "path \<Rightarrow> path \<Rightarrow> unit io" where
  "symlink target p = (\<lambda>s. case nodes s p of
       Some _ \<Rightarrow> (Inl EEXIST, s)
     | None \<Rightarrow> (Inr (), s\<lparr>nodes := (nodes s)(p \<mapsto> Symlink target),
                              trace := trace s @ [Linked target p]\<rparr>))"

text \<open>\<open>fs.promises.mkdir(p, {recursive: true})\<close>: nothing to do for a directory.\<close>

definition mkdir :: "path \<Rightarrow> unit io" where
  "mkdir p = (\<lambda>s. case nodes s p of
       None \<Rightarrow> (Inr (), s\<lparr>nodes := (nodes s)(p \<mapsto> Dir), trace := trace s @ [MadeDir p]\<rparr>)
     | Some Dir \<Rightarrow> (Inr (), s)
     | Some (File c) \<Rightarrow> (Inl EEXIST, s)
     | Some (Symlink t) \<Rightarrow> (case resolve (nodes s) t of
           Inl e \<Rightarrow> (Inl e, s)
         | Inr q \<Rightarrow> if nodes s q = Some Dir then (Inr (), s) else (Inl EEXIST, s)))"

section \<open>The fragment scanner\<close>

text \<open>
  The directory tree as \<open>readdir(dir, {withFileTypes: true})\<close> shows it: an entry is a regular
  file, a directory with its named entries, a directory that cannot be read (with the error
  \<open>readdir\<close> gives), or something else (a link, a socket).  The tree at \<open>outputDir\<close> is an
  input of a refresh.
\<close>

datatype dirent = RegularFile | OtherEntry | Directory "(string \<times> dirent) list" | Unreadable error

fun isDirectory :: "dirent \<Rightarrow> bool" where
  "isDirectory (Directory entries) = True"
| "isDirectory (Unreadable e) = True"
| "isDirectory RegularFile = False"
| "isDirectory OtherEntry = False"

fun getAllFiles :: "path \<Rightarrow> (string \<Rightarrow> bool) \<Rightarrow> path list \<Rightarrow> dirent \<Rightarrow> error + path list"
  and scanEntries :: "path \<Rightarrow> (string \<Rightarrow> bool) \<Rightarrow> path list \<Rightarrow> (string \<times> dirent) list
                      \<Rightarrow> path list \<Rightarrow> error + path list" where
  "getAllFiles dir pattern exclude (Directory entries) = scanEntries dir pattern exclude entries []"
| "getAllFiles dir pattern exclude (Unreadable e) = Inl e"
| "getAllFiles dir pattern exclude RegularFile = Inl ENOTDIR"
| "getAllFiles dir pattern exclude OtherEntry = Inl ENOTDIR"
| "scanEntries dir pattern exclude [] files = Inr files"
| "scanEntries dir pattern exclude ((name, entry) # rest) files =
     (let fullPath = path_join dir name in
      if fullPath \<in> set exclude then scanEntries dir pattern exclude rest files
      else if isDirectory entry then
        if name = ''node_modules'' then scanEntries dir pattern exclude rest files
        else (case getAllFiles fullPath pattern exclude entry of
            Inl e \<Rightarrow> Inl e
          | Inr subDirFiles \<Rightarrow> scanEntries dir pattern exclude rest (files @ subDirFiles))
      else if entry = RegularFile \<and> pattern name
        then scanEntries dir pattern exclude rest (files @ [fullPath])
      else scanEntries dir pattern exclude rest files)"

text \<open>The pattern of a refresh, \<open>/\.module\.css$/\<close>.\<close>

definition module_css :: "string \<Rightarrow> bool" where
  "module_css name = suffix ''.module.css'' name"

section \<open>The runtime\<close>

text \<open>
  The library functions the program calls and this repository does not define:
  \<open>path.resolve\<close> and \<open>path.dirname\<close>, the SHA-256 digest in hexadecimal of \<open>node:crypto\<close>, and
  the rule-merge collaborator, \<open>postcss([postcssDiscardDuplicates]).process(...).css\<close>, which
  rejects malformed input.
\<close>

record runtime =
  path_resolve :: "string \<Rightarrow> path"
  path_dirname :: "path \<Rightarrow> path"
  sha256_hex :: "string \<Rightarrow> string"
  discard_duplicates :: "string \<Rightarrow> error + string"

definition gets :: "(state \<Rightarrow> 'a) \<Rightarrow> 'a io" where
  "gets f = (\<lambda>s. (Inr (f s), s))"

definition modify :: "(state \<Rightarrow> state) \<Rightarrow> unit io" where
  "modify f = (\<lambda>s. (Inr (), f s))"

definition seq :: "unit io \<Rightarrow> 'a io \<Rightarrow> 'a io" where
  "seq m n = bind_io m (\<lambda>_. n)"

definition when_io :: "bool \<Rightarrow> unit io \<Rightarrow> unit io" where
  "when_io b m = (if b then m else ret ())"

text \<open>\<open>Promise.all\<close>: every result, or the first rejection.\<close>

fun promise_all :: "(error + 'a) list \<Rightarrow> error + 'a list" where
  "promise_all [] = Inr []"
| "promise_all (Inl e # rs) = Inl e"
| "promise_all (Inr x # rs) = (case promise_all rs of Inl e \<Rightarrow> Inl e | Inr xs \<Rightarrow> Inr (x # xs))"

section \<open>The change detector\<close>

definition batchSize :: nat where
  "batchSize = 5"

text \<open>The digest of one file, read as a stream.\<close>

definition calculateFileHash :: "runtime \<Rightarrow> (path \<Rightarrow> node option) \<Rightarrow> path \<Rightarrow> error + string" where
  "calculateFileHash rt fs filePath =
     (case read_file fs filePath of Inl e \<Rightarrow> Inl e | Inr data \<Rightarrow> Inr (sha256_hex rt data))"

text \<open>
  The loop of \<open>calculateHash\<close>: \<open>acc\<close> is what \<open>finalHash\<close> has been fed so far, \<open>i\<close> the loop
  counter.
\<close>

function hashBatches ::
  "runtime \<Rightarrow> (path \<Rightarrow> node option) \<Rightarrow> path list \<Rightarrow> nat \<Rightarrow> string \<Rightarrow> error + string" where
  "hashBatches rt fs files i acc =
     (if i < length files then
        (let batch = take batchSize (drop i files) in
         case promise_all (map (calculateFileHash rt fs) batch) of
           Inl e \<Rightarrow> Inl e
         | Inr hashes \<Rightarrow> hashBatches rt fs files (i + batchSize) (acc @ concat hashes))
      else Inr acc)"
  by pat_completeness auto
termination
  by (relation "measure (\<lambda>(rt, fs, files, i, acc). length files - i)") (auto simp: batchSize_def)

declare hashBatches.simps [simp del]

definition calculateHash :: "runtime \<Rightarrow> (path \<Rightarrow> node option) \<Rightarrow> path list \<Rightarrow> error + string" where
  "calculateHash rt fs files =
     (case hashBatches rt fs files 0 [] of Inl e \<Rightarrow> Inl e | Inr fed \<Rightarrow> Inr (sha256_hex rt fed))"

text \<open>The test of \<open>onSuccess\<close> that decides whether the fragments are merged again.\<close>

definition hasChanged :: "path list \<Rightarrow> string \<Rightarrow> state \<Rightarrow> bool" where
  "hasChanged moduleFiles currentHash s \<longleftrightarrow>
     currentHash \<noteq> lastKnownHash s \<or>
     length moduleFiles \<noteq> card (lastKnownFiles s) \<or>
     \<not> list_all (\<lambda>file. file \<in> lastKnownFiles s) moduleFiles"

section \<open>The merge engine\<close>

text \<open>The loop of \<open>onSuccess\<close> that builds \<open>combinedContent\<close>.\<close>

function readBatches ::
  "(path \<Rightarrow> node option) \<Rightarrow> path list \<Rightarrow> nat \<Rightarrow> string \<Rightarrow> error + string" where
  "readBatches fs moduleFiles i combinedContent =
     (if i < length moduleFiles then
        (let batch = take batchSize (drop i moduleFiles) in
         case promise_all (map (read_file fs) batch) of
           Inl e \<Rightarrow> Inl e
         | Inr contents \<Rightarrow>
             readBatches fs moduleFiles (i + batchSize) (combinedContent @ join ''\<newline>'' contents))
      else Inr combinedContent)"
  by pat_completeness auto
termination
  by (relation "measure (\<lambda>(fs, moduleFiles, i, combinedContent). length moduleFiles - i)")
     (auto simp: batchSize_def)

declare readBatches.simps [simp del]

section \<open>The plugin\<close>

record MergeCssPluginOptions =
  opt_extensions :: "string list option"
  opt_deduplicate :: "bool option"
  opt_verbose :: "bool option"

text \<open>The constants a plugin instance captures.\<close>

record plugin =
  outputDir :: path
  absoluteOutputDir :: path
  absoluteOutputFile :: path
  tempFile :: path
  backupFile :: path
  mainStylesLink :: path
  shadowLink :: path
  verbose :: bool

definition mergeCssPlugin :: "runtime \<Rightarrow> string \<Rightarrow> string \<Rightarrow> MergeCssPluginOptions \<Rightarrow> plugin" where
  "mergeCssPlugin rt outputFile outputDir' options =
     (let verbose' = (case opt_verbose options of None \<Rightarrow> True | Some v \<Rightarrow> v);
          absoluteOutputDir' = path_resolve rt outputDir';
          absoluteOutputFile' = path_resolve rt outputFile;
          tempFile' = path_join (path_dirname rt absoluteOutputFile') ''styles.temp.css'';
          backupFile' = path_join (path_dirname rt absoluteOutputFile') ''styles.backup.css'';
          mainStylesLink' = path_join absoluteOutputDir' ''styles.css'';
          shadowLink' = path_join (path_dirname rt mainStylesLink') ''.styles.shadow.css''
      in \<lparr>outputDir = outputDir', absoluteOutputDir = absoluteOutputDir',
          absoluteOutputFile = absoluteOutputFile', tempFile = tempFile',
          backupFile = backupFile', mainStylesLink = mainStylesLink',
          shadowLink = shadowLink', verbose = verbose'\<rparr>)"

text \<open>The variables of a new instance, on a given file system.\<close>

definition initial :: "(path \<Rightarrow> node option) \<Rightarrow> state" where
  "initial fs = \<lparr>nodes = fs, trace = [], lastKnownFiles = {}, lastKnownHash = [],
                 tempFileHandle = None, backupFileHandle = None\<rparr>"

text \<open>\<open>cleanup\<close>: closing a handle the plugin holds does not fail.\<close>

definition cleanup :: "unit io" where
  "cleanup =
     try_catch
       (seq (bind_io (gets tempFileHandle) (\<lambda>h.
               when_io (h \<noteq> None) (modify (\<lambda>s. s\<lparr>tempFileHandle := None\<rparr>))))
            (bind_io (gets backupFileHandle) (\<lambda>h.
               when_io (h \<noteq> None) (modify (\<lambda>s. s\<lparr>backupFileHandle := None\<rparr>)))))
       (\<lambda>error. ret ())"

text \<open>
  \<open>setupInitialFiles\<close>.  Its last block, under \<open>verbose\<close>, reads the two links back to print
  them and catches what that raises; it changes nothing.
\<close>

definition removeInvalidLink :: "path \<Rightarrow> unit io" where
  "removeInvalidLink link =
     try_catch
       (bind_io (readlink link) (\<lambda>target.
        bind_io (gets (\<lambda>s. existsSync (nodes s) target)) (\<lambda>found.
        when_io (\<not> found) (unlink link))))
       (\<lambda>e. ret ())"

definition setupInitialFiles :: "runtime \<Rightarrow> plugin \<Rightarrow> unit io" where
  "setupInitialFiles rt cfg =
     try_catch
       (seq (bind_io (gets tempFileHandle) (\<lambda>h.
               when_io (h = None)
                 (bind_io (open_append (tempFile cfg)) (\<lambda>fh.
                    modify (\<lambda>s. s\<lparr>tempFileHandle := Some fh\<rparr>)))))
       (seq (bind_io (gets backupFileHandle) (\<lambda>h.
               when_io (h = None)
                 (bind_io (open_append (backupFile cfg)) (\<lambda>fh.
                    modify (\<lambda>s. s\<lparr>backupFileHandle := Some fh\<rparr>)))))
       (seq (mkdir (path_dirname rt (mainStylesLink cfg)))
       (seq (mkdir (path_dirname rt (shadowLink cfg)))
       (seq (removeInvalidLink (shadowLink cfg))
       (seq (removeInvalidLink (mainStylesLink cfg))
       (seq (bind_io (gets (\<lambda>s. existsSync (nodes s) (shadowLink cfg))) (\<lambda>found.
               when_io (\<not> found) (symlink (backupFile cfg) (shadowLink cfg))))
            (bind_io (gets (\<lambda>s. existsSync (nodes s) (mainStylesLink cfg))) (\<lambda>found.
               when_io (\<not> found) (symlink (shadowLink cfg) (mainStylesLink cfg)))))))))))
       (\<lambda>error. seq cleanup (throw error))"

text \<open>\<open>atomicStyleUpdate\<close>, the publisher.  It never rejects: it answers false instead.\<close>

definition atomicStyleUpdate :: "plugin \<Rightarrow> string \<Rightarrow> bool \<Rightarrow> bool io" where
  "atomicStyleUpdate cfg newContent forceUpdate =
     try_catch
       (if trim newContent = [] \<and> \<not> forceUpdate then ret False
        else
          bind_io (try_catch (bind_io (readlink (shadowLink cfg)) (\<lambda>t. ret (Some t)))
                             (\<lambda>error. ret None)) (\<lambda>found.
          case found of
            None \<Rightarrow>
              seq (writeFile (backupFile cfg) newContent)
             (seq (symlink (backupFile cfg) (shadowLink cfg))
             (seq (symlink (shadowLink cfg) (mainStylesLink cfg))
                  (ret True)))
          | Some currentTarget \<Rightarrow>
              (let isUsingBackup = (currentTarget = backupFile cfg);
                   activeFile = (if isUsingBackup then tempFile cfg else backupFile cfg);
                   inactiveFile = (if isUsingBackup then backupFile cfg else tempFile cfg)
               in seq (writeFile activeFile newContent)
                      (try_catch
                         (seq (unlink (shadowLink cfg))
                         (seq (symlink activeFile (shadowLink cfg))
                         (seq (writeFile inactiveFile newContent)
                              (ret True))))
                         (\<lambda>error.
                            seq (try_catch
                                   (seq (unlink (shadowLink cfg))
                                        (symlink currentTarget (shadowLink cfg)))
                                   (\<lambda>rollbackError. ret ()))
                                (throw error))))))
       (\<lambda>error. ret False)"

text \<open>
  \<open>onSuccess\<close>, the refresh.  \<open>tree\<close> is the directory tree at \<open>outputDir\<close> when_io it is scanned.
\<close>

definition onSuccess :: "runtime \<Rightarrow> plugin \<Rightarrow> dirent \<Rightarrow> unit io" where
  "onSuccess rt cfg tree =
     try_catch
       (seq (setupInitialFiles rt cfg)
       (bind_io (lift (getAllFiles (outputDir cfg) module_css
                         [absoluteOutputFile cfg, tempFile cfg, backupFile cfg] tree))
          (\<lambda>moduleFiles.
        bind_io (try_catch
                   (bind_io (readlink (shadowLink cfg)) (\<lambda>currentTarget. readFile currentTarget))
                   (\<lambda>error. ret [])) (\<lambda>currentContent.
        if length moduleFiles > 0 then
          bind_io (\<lambda>s. (calculateHash rt (nodes s) moduleFiles, s)) (\<lambda>currentHash.
          bind_io (gets (hasChanged moduleFiles currentHash)) (\<lambda>changed.
          if changed then
            bind_io (\<lambda>s. (readBatches (nodes s) moduleFiles 0 [], s)) (\<lambda>combinedContent.
            bind_io (lift (discard_duplicates rt combinedContent)) (\<lambda>css.
            bind_io (atomicStyleUpdate cfg css False) (\<lambda>success.
            when_io success
              (modify (\<lambda>s. s\<lparr>lastKnownFiles := set moduleFiles,
                               lastKnownHash := currentHash\<rparr>)))))
          else if verbose cfg then
            when_io (trim currentContent \<noteq> [])
              (bind_io (atomicStyleUpdate cfg currentContent False) (\<lambda>_. ret ()))
          else ret ()))
        else if trim currentContent \<noteq> [] then
          bind_io (atomicStyleUpdate cfg currentContent False) (\<lambda>_. ret ())
        else
          bind_io (atomicStyleUpdate cfg [] False) (\<lambda>_. ret ())))))
       (\<lambda>error. ret ())"


definition dispose :: "unit io" where
  "dispose = cleanup"

section \<open>Notions used in the properties\<close>

text \<open>What the change detector remembers.\<close>

definition detector :: "state \<Rightarrow> path set \<times> string" where
  "detector s = (lastKnownFiles s, lastKnownHash s)"

definition keeps_detector :: "'a io \<Rightarrow> bool" where
  "keeps_detector m \<longleftrightarrow> (\<forall>s. detector (snd (m s)) = detector s)"

text \<open>
  A refresh has committed: every stage succeeded, the publisher answered true, and the
  final state is the publisher's with the detector replaced.
\<close>

definition committed :: "runtime \<Rightarrow> plugin \<Rightarrow> dirent \<Rightarrow> state \<Rightarrow> state \<Rightarrow> bool" where
  "committed rt cfg tree s s' \<longleftrightarrow>
     (\<exists>s1 moduleFiles currentHash combinedContent css s2.
        setupInitialFiles rt cfg s = (Inr (), s1) \<and>
        getAllFiles (outputDir cfg) module_css
          [absoluteOutputFile cfg, tempFile cfg, backupFile cfg] tree = Inr moduleFiles \<and>
        moduleFiles \<noteq> [] \<and>
        calculateHash rt (nodes s1) moduleFiles = Inr currentHash \<and>
        hasChanged moduleFiles currentHash s1 \<and>
        readBatches (nodes s1) moduleFiles 0 [] = Inr combinedContent \<and>
        discard_duplicates rt combinedContent = Inr css \<and>
        atomicStyleUpdate cfg css False s1 = (Inr True, s2) \<and>
        s' = s2\<lparr>lastKnownFiles := set moduleFiles, lastKnownHash := currentHash\<rparr>)"

text \<open>What \<open>onSuccess\<close> reads as \<open>currentContent\<close>.\<close>

definition currentContentOf :: "plugin \<Rightarrow> state \<Rightarrow> string" where
  "currentContentOf cfg s = (case nodes s (shadowLink cfg) of
      Some (Symlink t) \<Rightarrow> (case read_file (nodes s) t of Inr c \<Rightarrow> c | Inl e \<Rightarrow> [])
    | _ \<Rightarrow> [])"

definition distinct_paths :: "plugin \<Rightarrow> bool" where
  "distinct_paths cfg \<longleftrightarrow>
     distinct [tempFile cfg, backupFile cfg, shadowLink cfg, mainStylesLink cfg]"

text \<open>A path that holds a regular file or nothing; a path that holds no link.\<close>

definition plain :: "(path \<Rightarrow> node option) \<Rightarrow> path \<Rightarrow> bool" where
  "plain fs p \<longleftrightarrow> (case fs p of None \<Rightarrow> True | Some (File c) \<Rightarrow> True | Some _ \<Rightarrow> False)"

definition not_link :: "(path \<Rightarrow> node option) \<Rightarrow> path \<Rightarrow> bool" where
  "not_link fs p \<longleftrightarrow> (case fs p of Some (Symlink t) \<Rightarrow> False | _ \<Rightarrow> True)"

text \<open>
  The publication state of the specification, when it exists: the main link points at the
  shadow link, the shadow link at a regular file \<open>t\<close> with content \<open>c\<close>, each buffer is a regular
  file or absent, and the directories of the two links are there.
\<close>

definition ready :: "runtime \<Rightarrow> plugin \<Rightarrow> path \<Rightarrow> string \<Rightarrow> state \<Rightarrow> bool" where
  "ready rt cfg t c s \<longleftrightarrow>
     nodes s (mainStylesLink cfg) = Some (Symlink (shadowLink cfg)) \<and>
     nodes s (shadowLink cfg) = Some (Symlink t) \<and>
     nodes s t = Some (File c) \<and>
     plain (nodes s) (tempFile cfg) \<and>
     plain (nodes s) (backupFile cfg) \<and>
     nodes s (path_dirname rt (mainStylesLink cfg)) = Some Dir \<and>
     nodes s (path_dirname rt (shadowLink cfg)) = Some Dir"


text \<open>
  Nothing published yet, for a new plugin instance: no link, no open handle, each buffer a
  regular file or absent, and the directories of the links either there or still to make
  (a directory is none of the four publication paths).
\<close>

definition uninitialized :: "runtime \<Rightarrow> plugin \<Rightarrow> state \<Rightarrow> bool" where
  "uninitialized rt cfg s \<longleftrightarrow>
     nodes s (shadowLink cfg) = None \<and> nodes s (mainStylesLink cfg) = None \<and>
     plain (nodes s) (tempFile cfg) \<and> plain (nodes s) (backupFile cfg) \<and>
     tempFileHandle s = None \<and> backupFileHandle s = None \<and>
     list_all (\<lambda>d. (nodes s d = None \<or> nodes s d = Some Dir) \<and>
                    d \<notin> set [tempFile cfg, backupFile cfg, shadowLink cfg, mainStylesLink cfg])
       [path_dirname rt (mainStylesLink cfg), path_dirname rt (shadowLink cfg)]"

text \<open>
  \<open>setupInitialFiles\<close> in two parts: its first two steps where the buffers are regular files
  or absent, and the steps after them.
\<close>

definition openHandles :: "plugin \<Rightarrow> state \<Rightarrow> state" where
  "openHandles cfg s =
     (let s1 = (if tempFileHandle s = None
                then (snd (open_append (tempFile cfg) s))
                       \<lparr>tempFileHandle := Some (FileHandle (tempFile cfg))\<rparr>
                else s)
      in if backupFileHandle s1 = None
         then (snd (open_append (backupFile cfg) s1))
                \<lparr>backupFileHandle := Some (FileHandle (backupFile cfg))\<rparr>
         else s1)"

definition setupLinks :: "runtime \<Rightarrow> plugin \<Rightarrow> unit io" where
  "setupLinks rt cfg =
     seq (mkdir (path_dirname rt (mainStylesLink cfg)))
    (seq (mkdir (path_dirname rt (shadowLink cfg)))
    (seq (removeInvalidLink (shadowLink cfg))
    (seq (removeInvalidLink (mainStylesLink cfg))
    (seq (bind_io (gets (\<lambda>s. existsSync (nodes s) (shadowLink cfg))) (\<lambda>found.
            when_io (\<not> found) (symlink (backupFile cfg) (shadowLink cfg))))
         (bind_io (gets (\<lambda>s. existsSync (nodes s) (mainStylesLink cfg))) (\<lambda>found.
            when_io (\<not> found) (symlink (shadowLink cfg) (mainStylesLink cfg))))))))"

text \<open>
  The state a successful refresh leaves: both buffers hold the published content \<open>c\<close>, the
  shadow link points at one of them, and the detector remembers the fragments of \<open>tree\<close> and
  their fingerprint.
\<close>

definition refreshed :: "runtime \<Rightarrow> plugin \<Rightarrow> dirent \<Rightarrow> string \<Rightarrow> state \<Rightarrow> bool" where
  "refreshed rt cfg tree c s \<longleftrightarrow>
     (case getAllFiles (outputDir cfg) module_css
             [absoluteOutputFile cfg, tempFile cfg, backupFile cfg] tree of
        Inl e \<Rightarrow> False
      | Inr moduleFiles \<Rightarrow>
          moduleFiles \<noteq> [] \<and> distinct moduleFiles \<and>
          calculateHash rt (nodes s) moduleFiles = Inr (lastKnownHash s) \<and>
          lastKnownFiles s = set moduleFiles) \<and>
     (ready rt cfg (tempFile cfg) c s \<or> ready rt cfg (backupFile cfg) c s) \<and>
     nodes s (tempFile cfg) = Some (File c) \<and>
     nodes s (backupFile cfg) = Some (File c)"

text \<open>
  What a reader can find while a sequence of mutations happens.  A write is not atomic: while
  it lasts the file holds a proper prefix of the new content, from nothing on.
\<close>

fun apply_event :: "event \<Rightarrow> (path \<Rightarrow> node option) \<Rightarrow> (path \<Rightarrow> node option)" where
  "apply_event (Created p) fs = fs(p \<mapsto> File [])"
| "apply_event (Written p c) fs = fs(p \<mapsto> File c)"
| "apply_event (Unlinked p) fs = fs(p := None)"
| "apply_event (Linked t p) fs = fs(p \<mapsto> Symlink t)"
| "apply_event (MadeDir p) fs = fs(p \<mapsto> Dir)"

fun during :: "event \<Rightarrow> (path \<Rightarrow> node option) \<Rightarrow> (path \<Rightarrow> node option) list" where
  "during (Written p c) fs = map (\<lambda>k. fs(p \<mapsto> File (take k c))) [0..<length c]"
| "during e fs = []"

fun observable :: "(path \<Rightarrow> node option) \<Rightarrow> event list \<Rightarrow> (path \<Rightarrow> node option) list" where
  "observable fs [] = [fs]"
| "observable fs (e # es) = fs # during e fs @ observable (apply_event e fs) es"

section \<open>An example instance\<close>

text \<open>
  A small runtime and file system on which the program can be run: the digest is replaced by
  a marker in front of the data, and the collaborator marks what it has processed.
\<close>

definition example_rt :: runtime where
  "example_rt = \<lparr>path_resolve = (\<lambda>p. p), path_dirname = (\<lambda>p. ''/out''),
     sha256_hex = (\<lambda>data. ''#'' @ data),
     discard_duplicates = (\<lambda>css. Inr (''/*merged*/'' @ css))\<rparr>"

definition example_options :: "bool option \<Rightarrow> bool option \<Rightarrow> MergeCssPluginOptions" where
  "example_options d v = \<lparr>opt_extensions = None, opt_deduplicate = d, opt_verbose = v\<rparr>"

definition example_plugin :: "bool option \<Rightarrow> bool option \<Rightarrow> plugin" where
  "example_plugin d v = mergeCssPlugin example_rt ''/out/merged.css'' ''/out'' (example_options d v)"

definition example_tree :: dirent where
  "example_tree = Directory [(''a.module.css'', RegularFile), (''b.module.css'', RegularFile)]"

definition example_fs :: "path \<Rightarrow> node option" where
  "example_fs = [''/out'' \<mapsto> Dir, ''/out/a.module.css'' \<mapsto> File ''.a{}'',
                 ''/out/b.module.css'' \<mapsto> File ''.a{}'']"

text \<open>
  The state after the first refresh of a new plugin with the default options, and the same
  state with its trace emptied.
\<close>

definition example_first :: state where
  "example_first =
     snd (onSuccess example_rt (example_plugin None None) example_tree (initial example_fs))"

definition example_refreshed :: state where
  "example_refreshed = example_first\<lparr>trace := []\<rparr>"

text \<open>Six fragments, each holding one letter.\<close>

definition six_files :: "path list" where
  "six_files = [''/out/1.module.css'', ''/out/2.module.css'', ''/out/3.module.css'',
                ''/out/4.module.css'', ''/out/5.module.css'', ''/out/6.module.css'']"

definition six_fs :: "path \<Rightarrow> node option" where
  "six_fs = [''/out/1.module.css'' \<mapsto> File ''a'', ''/out/2.module.css'' \<mapsto> File ''b'',
             ''/out/3.module.css'' \<mapsto> File ''c'', ''/out/4.module.css'' \<mapsto> File ''d'',
             ''/out/5.module.css'' \<mapsto> File ''e'', ''/out/6.module.css'' \<mapsto> File ''f'']"

section \<open>The change detector: properties\<close>

lemma map_calculateFileHash:
  "map (calculateFileHash rt fs) ps =
   map (\<lambda>r. case r of Inl e \<Rightarrow> Inl e | Inr d \<Rightarrow> Inr (sha256_hex rt d)) (map (read_file fs) ps)"
  by (simp add: calculateFileHash_def)

lemma hashBatches_contents:
  "map (read_file fs) files = map (read_file fs') files' \<Longrightarrow>
   hashBatches rt fs files i acc = hashBatches rt fs' files' i acc"
proof (induction rt fs files i acc rule: hashBatches.induct)
  case (1 rt fs files i acc)
  have len: "length files' = length files"
    using "1.prems" by (metis length_map)
  have batch: "map (calculateFileHash rt fs) (take batchSize (drop i files)) =
               map (calculateFileHash rt fs') (take batchSize (drop i files'))"
    unfolding map_calculateFileHash using "1.prems"
    by (simp add: take_map [symmetric] drop_map [symmetric])
  show ?case
  proof (cases "i < length files")
    case False
    then show ?thesis using len
      by (simp add: hashBatches.simps [of rt fs files] hashBatches.simps [of rt fs' files'])
  next
    case True
    show ?thesis
    proof (cases "promise_all (map (calculateFileHash rt fs) (take batchSize (drop i files)))")
      case (Inl e)
      then show ?thesis using True len batch
        by (simp add: hashBatches.simps [of rt fs files i] hashBatches.simps [of rt fs' files' i])
    next
      case (Inr hashes)
      have "hashBatches rt fs files (i + batchSize) (acc @ concat hashes) =
            hashBatches rt fs' files' (i + batchSize) (acc @ concat hashes)"
        using "1.IH" [OF True refl Inr "1.prems"] .
      then show ?thesis using True len batch Inr
        by (simp add: hashBatches.simps [of rt fs files i] hashBatches.simps [of rt fs' files' i])
    qed
  qed
qed

lemma calculateHash_contents:
  "map (read_file fs) files = map (read_file fs') files' \<Longrightarrow>
   calculateHash rt fs files = calculateHash rt fs' files'"
  by (simp add: calculateHash_def hashBatches_contents [of fs files fs' files'])

lemma distinct_same_length_new_member:
  assumes "distinct xs" "distinct ys" "length ys = length xs" "set ys \<noteq> set xs"
  shows "\<exists>p\<in>set ys. p \<notin> set xs"
proof (rule ccontr)
  assume "\<not> (\<exists>p\<in>set ys. p \<notin> set xs)"
  then have sub: "set ys \<subseteq> set xs" by blast
  have "card (set ys) = card (set xs)"
    using assms by (simp add: distinct_card)
  then have "set ys = set xs"
    using sub by (simp add: card_subset_eq)
  then show False using assms by simp
qed



text \<open>
  C10.  The fingerprint is a function of the fragment contents in their order, not of the
  paths: two path lists whose files read the same, position by position, have the same
  fingerprint.  So when fragments are renamed, with contents and number unchanged, the
  fingerprint and the size test see nothing, and the refresh still counts the set as changed
  because a new path is missing from the remembered set.
\<close>

theorem calculateHash_paths_irrelevant:
  "(map (read_file fs') files' = map (read_file fs) files \<longrightarrow>
      calculateHash rt fs' files' = calculateHash rt fs files) \<and>
   (map (read_file fs') files' = map (read_file fs) files \<and>
    distinct files \<and> distinct files' \<and> set files' \<noteq> set files \<and>
    calculateHash rt fs files = Inr (lastKnownHash s) \<and> lastKnownFiles s = set files \<longrightarrow>
      calculateHash rt fs' files' = Inr (lastKnownHash s) \<and>
      length files' = card (lastKnownFiles s) \<and>
      (\<exists>p\<in>set files'. p \<notin> lastKnownFiles s) \<and>
      hasChanged files' (lastKnownHash s) s)"
proof (intro conjI impI)
  assume "map (read_file fs') files' = map (read_file fs) files"
  then show "calculateHash rt fs' files' = calculateHash rt fs files"
    by (rule calculateHash_contents)
next
  assume a: "map (read_file fs') files' = map (read_file fs) files \<and>
    distinct files \<and> distinct files' \<and> set files' \<noteq> set files \<and>
    calculateHash rt fs files = Inr (lastKnownHash s) \<and> lastKnownFiles s = set files"
  then have len: "length files' = length files"
    by (metis length_map)
  show "calculateHash rt fs' files' = Inr (lastKnownHash s)"
    using a calculateHash_contents [of fs' files' fs files rt] by simp
  show "length files' = card (lastKnownFiles s)"
    using a len by (simp add: distinct_card)
  show new: "\<exists>p\<in>set files'. p \<notin> lastKnownFiles s"
    using a len distinct_same_length_new_member [of files files'] by simp
  show "hasChanged files' (lastKnownHash s) s"
    using new by (auto simp: hasChanged_def list_all_iff)
qed

theorem calculateHash_paths_irrelevant_witness:
  "map (read_file example_fs) [''/out/b.module.css''] =
     map (read_file example_fs) [''/out/a.module.css''] \<and>
   calculateHash example_rt example_fs [''/out/b.module.css''] = Inr ''##.a{}'' \<and>
   hasChanged [''/out/b.module.css''] ''##.a{}''
     ((initial example_fs)\<lparr>lastKnownFiles := set [''/out/a.module.css''],
                             lastKnownHash := ''##.a{}''\<rparr>)"
proof -
  let ?s = "(initial example_fs)\<lparr>lastKnownFiles := set [''/out/a.module.css''],
                                   lastKnownHash := ''##.a{}''\<rparr>"
  have same: "map (read_file example_fs) [''/out/b.module.css''] =
              map (read_file example_fs) [''/out/a.module.css'']"
    by code_simp
  have hash: "calculateHash example_rt example_fs [''/out/a.module.css''] = Inr (lastKnownHash ?s)"
    by code_simp
  have sets: "set [''/out/b.module.css''] \<noteq> set [''/out/a.module.css'']"
    by simp
  have known: "lastKnownFiles ?s = set [''/out/a.module.css'']" "lastKnownHash ?s = ''##.a{}''"
    by simp_all
  show ?thesis
    using calculateHash_paths_irrelevant [of example_fs "[''/out/b.module.css'']" example_fs
        "[''/out/a.module.css'']" example_rt ?s] same hash sets known
    by simp
qed

section \<open>The options\<close>

text \<open>
  C2.  The \<open>deduplicate\<close> option is never read: a plugin made with \<open>deduplicate: false\<close> is the
  plugin made with \<open>deduplicate: true\<close>, and its refresh publishes what the collaborator
  returns.  On the example, with \<open>deduplicate: false\<close>, the published content carries the
  collaborator's mark and is not the plain concatenation.
\<close>

theorem deduplicate_option_ignored:
  "mergeCssPlugin rt outputFile dir (options\<lparr>opt_deduplicate := Some False\<rparr>) =
     mergeCssPlugin rt outputFile dir (options\<lparr>opt_deduplicate := Some True\<rparr>) \<and>
   readBatches example_fs [''/out/a.module.css'', ''/out/b.module.css''] 0 [] =
     Inr ''.a{}\<newline>.a{}'' \<and>
   read_file
     (nodes (snd (onSuccess example_rt (example_plugin (Some False) None) example_tree
                    (initial example_fs))))
     ''/out/styles.css'' = Inr ''/*merged*/.a{}\<newline>.a{}''"
proof (intro conjI)
  show "mergeCssPlugin rt outputFile dir (options\<lparr>opt_deduplicate := Some False\<rparr>) =
        mergeCssPlugin rt outputFile dir (options\<lparr>opt_deduplicate := Some True\<rparr>)"
    by (simp add: mergeCssPlugin_def)
  show "readBatches example_fs [''/out/a.module.css'', ''/out/b.module.css''] 0 [] =
        Inr ''.a{}\<newline>.a{}''"
    by code_simp
  show "read_file
     (nodes (snd (onSuccess example_rt (example_plugin (Some False) None) example_tree
                    (initial example_fs))))
     ''/out/styles.css'' = Inr ''/*merged*/.a{}\<newline>.a{}''"
    by code_simp
qed

text \<open>
  C3.  \<open>verbose\<close> decides more than logging.  From the state a first refresh leaves, with the
  fragments unchanged, a refresh of a verbose plugin writes both buffers and switches the
  shadow link, and a refresh of a quiet plugin touches nothing; afterwards the shadow link
  points at different buffers.
\<close>

theorem verbose_changes_mutations:
  "trace (snd (onSuccess example_rt (example_plugin None (Some True)) example_tree
                 example_refreshed)) =
     [Written ''/out/styles.backup.css'' ''/*merged*/.a{}\<newline>.a{}'',
      Unlinked ''/out/.styles.shadow.css'',
      Linked ''/out/styles.backup.css'' ''/out/.styles.shadow.css'',
      Written ''/out/styles.temp.css'' ''/*merged*/.a{}\<newline>.a{}''] \<and>
   trace (snd (onSuccess example_rt (example_plugin None (Some False)) example_tree
                 example_refreshed)) = [] \<and>
   nodes (snd (onSuccess example_rt (example_plugin None (Some True)) example_tree
                 example_refreshed)) ''/out/.styles.shadow.css'' =
     Some (Symlink ''/out/styles.backup.css'') \<and>
   nodes (snd (onSuccess example_rt (example_plugin None (Some False)) example_tree
                 example_refreshed)) ''/out/.styles.shadow.css'' =
     Some (Symlink ''/out/styles.temp.css'')"
  by code_simp

section \<open>The merge engine: properties\<close>

text \<open>
  C4.  The separator is put between the fragments of one batch only.  With six fragments
  holding \<open>a\<close> to \<open>f\<close>, the fifth and the sixth are joined without a line feed, so what the
  collaborator receives is not the six contents joined by line feeds.
\<close>

theorem readBatches_six_fragments:
  "readBatches six_fs six_files 0 [] = Inr ''a\<newline>b\<newline>c\<newline>d\<newline>ef'' \<and>
   promise_all (map (read_file six_fs) six_files) = Inr [''a'', ''b'', ''c'', ''d'', ''e'', ''f''] \<and>
   join ''\<newline>'' [''a'', ''b'', ''c'', ''d'', ''e'', ''f''] =
     ''a\<newline>b\<newline>c\<newline>d\<newline>e\<newline>f''"
  by code_simp

section \<open>The detector's memory\<close>

lemma keeps_ret: "keeps_detector (ret x)"
  by (simp add: keeps_detector_def ret_def)

lemma keeps_throw: "keeps_detector (throw e)"
  by (simp add: keeps_detector_def throw_def)

lemma keeps_lift: "keeps_detector (lift r)"
  by (simp add: keeps_detector_def lift_def)

lemma keeps_gets: "keeps_detector (gets f)"
  by (simp add: keeps_detector_def gets_def)

lemma keeps_bind:
  assumes "keeps_detector m" and "\<And>x. keeps_detector (f x)"
  shows "keeps_detector (bind_io m f)"
  unfolding keeps_detector_def
proof
  fix s
  obtain r s' where ms: "m s = (r, s')" by (cases "m s")
  have d: "detector s' = detector s"
    using assms(1) ms unfolding keeps_detector_def by (metis snd_conv)
  show "detector (snd (bind_io m f s)) = detector s"
  proof (cases r)
    case (Inl e)
    then show ?thesis using ms d by (simp add: bind_io_def)
  next
    case (Inr x)
    have "detector (snd (f x s')) = detector s'"
      using assms(2) [of x] unfolding keeps_detector_def by simp
    then show ?thesis using Inr ms d by (simp add: bind_io_def)
  qed
qed

lemma keeps_catch:
  assumes "keeps_detector m" and "\<And>e. keeps_detector (h e)"
  shows "keeps_detector (try_catch m h)"
  unfolding keeps_detector_def
proof
  fix s
  obtain r s' where ms: "m s = (r, s')" by (cases "m s")
  have d: "detector s' = detector s"
    using assms(1) ms unfolding keeps_detector_def by (metis snd_conv)
  show "detector (snd (try_catch m h s)) = detector s"
  proof (cases r)
    case (Inr x)
    then show ?thesis using ms d by (simp add: try_catch_def)
  next
    case (Inl e)
    have "detector (snd (h e s')) = detector s'"
      using assms(2) [of e] unfolding keeps_detector_def by simp
    then show ?thesis using Inl ms d by (simp add: try_catch_def)
  qed
qed

lemma keeps_seq: "keeps_detector m \<Longrightarrow> keeps_detector n \<Longrightarrow> keeps_detector (seq m n)"
  by (simp add: seq_def keeps_bind)

lemma keeps_when: "keeps_detector m \<Longrightarrow> keeps_detector (when_io b m)"
  by (simp add: when_io_def keeps_ret)

lemma keeps_if: "keeps_detector m \<Longrightarrow> keeps_detector n \<Longrightarrow> keeps_detector (if b then m else n)"
  by simp

lemma keeps_case_option:
  "keeps_detector m \<Longrightarrow> (\<And>x. keeps_detector (f x)) \<Longrightarrow> keeps_detector (case v of None \<Rightarrow> m | Some x \<Rightarrow> f x)"
  by (cases v) simp_all

lemma keeps_readlink: "keeps_detector (readlink p)"
  by (simp add: keeps_detector_def readlink_def split: option.split node.split)

lemma keeps_readFile: "keeps_detector (readFile p)"
  by (simp add: keeps_detector_def readFile_def)

lemma keeps_writeFile: "keeps_detector (writeFile p c)"
  by (simp add: keeps_detector_def writeFile_def detector_def split: sum.split option.split node.split)

lemma keeps_open_append: "keeps_detector (open_append p)"
  by (simp add: keeps_detector_def open_append_def detector_def split: sum.split option.split node.split)

lemma keeps_unlink: "keeps_detector (unlink p)"
  by (simp add: keeps_detector_def unlink_def detector_def split: option.split node.split)

lemma keeps_symlink: "keeps_detector (symlink t p)"
  by (simp add: keeps_detector_def symlink_def detector_def split: option.split)

lemma keeps_mkdir: "keeps_detector (mkdir p)"
  by (simp add: keeps_detector_def mkdir_def detector_def split: sum.split option.split node.split)

lemma keeps_modify_temp: "keeps_detector (modify (\<lambda>s. s\<lparr>tempFileHandle := h\<rparr>))"
  by (simp add: keeps_detector_def modify_def detector_def)

lemma keeps_modify_backup: "keeps_detector (modify (\<lambda>s. s\<lparr>backupFileHandle := h\<rparr>))"
  by (simp add: keeps_detector_def modify_def detector_def)

lemmas keeps_rules = keeps_ret keeps_throw keeps_lift keeps_gets keeps_bind keeps_catch keeps_seq
  keeps_when keeps_if keeps_case_option keeps_readlink keeps_readFile keeps_writeFile
  keeps_open_append keeps_unlink keeps_symlink keeps_mkdir keeps_modify_temp keeps_modify_backup

lemma keeps_cleanup: "keeps_detector cleanup"
  unfolding cleanup_def by (intro keeps_rules)

lemma keeps_removeInvalidLink: "keeps_detector (removeInvalidLink p)"
  unfolding removeInvalidLink_def by (intro keeps_rules)

lemma keeps_setupInitialFiles: "keeps_detector (setupInitialFiles rt cfg)"
  unfolding setupInitialFiles_def by (intro keeps_rules keeps_cleanup keeps_removeInvalidLink)

lemma keeps_atomicStyleUpdate: "keeps_detector (atomicStyleUpdate cfg c f)"
  unfolding atomicStyleUpdate_def Let_def by (intro keeps_rules)

lemma atomicStyleUpdate_never_rejects: "fst (atomicStyleUpdate cfg c f s) \<noteq> Inl e"
  by (simp add: atomicStyleUpdate_def try_catch_def ret_def split: prod.split sum.split)

lemma setup_detector:
  "setupInitialFiles rt cfg s = (r, s') \<Longrightarrow> detector s' = detector s"
  using keeps_setupInitialFiles [of rt cfg] unfolding keeps_detector_def by (metis snd_conv)

lemma publish_detector:
  "atomicStyleUpdate cfg c f s = (r, s') \<Longrightarrow> detector s' = detector s"
  using keeps_atomicStyleUpdate [of cfg c f] unfolding keeps_detector_def by (metis snd_conv)

lemma read_current:
  "try_catch (bind_io (readlink (shadowLink cfg)) (\<lambda>currentTarget. readFile currentTarget))
             (\<lambda>error. ret []) s = (Inr (currentContentOf cfg s), s)"
  by (simp add: try_catch_def bind_io_def readlink_def readFile_def ret_def currentContentOf_def
      split: option.split node.split sum.split)

lemma refresh_commits:
  assumes run: "onSuccess rt cfg tree s = (r, s')"
    and changed: "detector s' \<noteq> detector s"
  shows "committed rt cfg tree s s'"
proof -
  obtain r1 s1 where su: "setupInitialFiles rt cfg s = (r1, s1)"
    by (cases "setupInitialFiles rt cfg s")
  have d1: "detector s1 = detector s"
    using su by (rule setup_detector)
  note defs = onSuccess_def try_catch_def bind_io_def seq_def lift_def ret_def gets_def
    when_io_def modify_def
  show ?thesis
  proof (cases r1)
    case (Inl e)
    then have "s' = s1" using run su by (simp add: defs)
    then show ?thesis using d1 changed by simp
  next
    case (Inr u)
    show ?thesis
      unfolding committed_def
      using run su Inr d1 changed read_current [of cfg s1]
      by (auto simp add: defs split: sum.splits if_splits prod.splits dest: publish_detector)
  qed
qed

text \<open>
  C8.  A refresh replaces what the detector remembers only when the publisher has answered
  true: if \<open>lastKnownFiles\<close> or \<open>lastKnownHash\<close> differs after \<open>onSuccess\<close>, then the setup, the
  scan, the hashing, the reading and the collaborator all succeeded, the publisher returned
  true, and the final state is the publisher's with the two variables replaced.  So after a
  failure of the scan, of the hashing, of the merge or of the publication, and after a
  publish that was not applied, both are what they were.
\<close>

theorem detector_replaced_only_after_publish:
  assumes "onSuccess rt cfg tree s = (r, s')"
    and "detector s' \<noteq> detector s"
  shows "committed rt cfg tree s s'"
  using assms by (rule refresh_commits)

theorem detector_replaced_only_after_publish_witness:
  "detector example_first \<noteq> detector (initial example_fs) \<and>
   committed example_rt (example_plugin None None) example_tree (initial example_fs) example_first"
proof -
  have run: "onSuccess example_rt (example_plugin None None) example_tree (initial example_fs) =
     (fst (onSuccess example_rt (example_plugin None None) example_tree (initial example_fs)),
      example_first)"
    by (simp add: example_first_def)
  have changed: "detector example_first \<noteq> detector (initial example_fs)"
    by code_simp
  show ?thesis
    using detector_replaced_only_after_publish [OF run changed] changed by simp
qed

section \<open>Paths, links and files\<close>

lemma distinct_paths_mergeCssPlugin: "distinct_paths (mergeCssPlugin rt outputFile dir options)"
  unfolding distinct_paths_def mergeCssPlugin_def Let_def path_join_def
  by (auto dest!: arg_cong [where f = rev])

lemma follow_plain: "(\<And>t. fs p \<noteq> Some (Symlink t)) \<Longrightarrow> follow n fs p = Inr p"
  by (cases n; cases "fs p") (auto split: node.split)

lemma resolve_plain: "(\<And>t. fs p \<noteq> Some (Symlink t)) \<Longrightarrow> resolve fs p = Inr p"
  by (simp add: resolve_def follow_plain)

lemma follow_link:
  "fs p = Some (Symlink t) \<Longrightarrow> follow (numeral k) fs p = follow (pred_numeral k) fs t"
  by (simp add: numeral_eq_Suc)

lemma resolve_link:
  assumes "fs p = Some (Symlink t)" and "\<And>u. fs t \<noteq> Some (Symlink u)"
  shows "resolve fs p = Inr t"
  using assms by (simp add: resolve_def follow_link follow_plain)

lemma resolve_link2:
  assumes "fs p = Some (Symlink q)" and "fs q = Some (Symlink t)"
    and "\<And>u. fs t \<noteq> Some (Symlink u)"
  shows "resolve fs p = Inr t"
  using assms by (simp add: resolve_def follow_link follow_plain)

lemma read_file_plain: "fs p = Some (File c) \<Longrightarrow> read_file fs p = Inr c"
  by (simp add: read_file_def resolve_plain)

lemma read_file_link: "fs p = Some (Symlink t) \<Longrightarrow> fs t = Some (File c) \<Longrightarrow> read_file fs p = Inr c"
  by (simp add: read_file_def resolve_link)

lemma read_file_link2:
  "fs p = Some (Symlink q) \<Longrightarrow> fs q = Some (Symlink t) \<Longrightarrow> fs t = Some (File c) \<Longrightarrow>
   read_file fs p = Inr c"
  by (simp add: read_file_def resolve_link2)

lemma existsSync_plain: "fs p = Some (File c) \<Longrightarrow> existsSync fs p"
  by (simp add: existsSync_def resolve_plain)

lemma existsSync_link: "fs p = Some (Symlink t) \<Longrightarrow> fs t = Some (File c) \<Longrightarrow> existsSync fs p"
  by (simp add: existsSync_def resolve_link)

lemma existsSync_link2:
  "fs p = Some (Symlink q) \<Longrightarrow> fs q = Some (Symlink t) \<Longrightarrow> fs t = Some (File c) \<Longrightarrow> existsSync fs p"
  by (simp add: existsSync_def resolve_link2)

lemma plain_resolve: "plain fs p \<Longrightarrow> resolve fs p = Inr p"
  by (rule resolve_plain) (auto simp: plain_def)

lemma writeFile_plain:
  "plain (nodes s) p \<Longrightarrow>
   writeFile p c s = (Inr (), s\<lparr>nodes := (nodes s)(p \<mapsto> File c), trace := trace s @ [Written p c]\<rparr>)"
  by (auto simp: writeFile_def plain_resolve plain_def split: option.splits node.splits)

lemma open_append_plain:
  "plain (nodes s) p \<Longrightarrow>
   open_append p s = (Inr (FileHandle p),
     if nodes s p = None
     then s\<lparr>nodes := (nodes s)(p \<mapsto> File []), trace := trace s @ [Created p]\<rparr> else s)"
  by (auto simp: open_append_def plain_resolve plain_def split: option.splits node.splits)

lemma not_link_resolve: "not_link fs p \<Longrightarrow> resolve fs p = Inr p"
  by (rule resolve_plain) (auto simp: not_link_def)

lemma writeFile_not_link:
  "not_link (nodes s) p \<Longrightarrow>
   writeFile p c s =
     (if nodes s p = Some Dir then (Inl EISDIR, s)
      else (Inr (), s\<lparr>nodes := (nodes s)(p \<mapsto> File c), trace := trace s @ [Written p c]\<rparr>))"
  by (auto simp: writeFile_def not_link_resolve not_link_def split: option.splits node.splits)

lemma read_file_one_hop:
  assumes "\<forall>t. fs p = Some (Symlink t) \<longrightarrow> not_link fs t"
  shows "read_file fs p =
     (case fs p of
        None \<Rightarrow> Inl ENOENT
      | Some (File c) \<Rightarrow> Inr c
      | Some Dir \<Rightarrow> Inl EISDIR
      | Some (Symlink t) \<Rightarrow>
          (case fs t of
             None \<Rightarrow> Inl ENOENT
           | Some (File c) \<Rightarrow> Inr c
           | Some Dir \<Rightarrow> Inl EISDIR
           | Some (Symlink u) \<Rightarrow> Inl ELOOP))"
proof (cases "fs p")
  case None
  then show ?thesis by (simp add: read_file_def resolve_plain)
next
  case (Some n)
  show ?thesis
  proof (cases n)
    case (File c)
    then show ?thesis using Some by (simp add: read_file_def resolve_plain)
  next
    case Dir
    then show ?thesis using Some by (simp add: read_file_def resolve_plain)
  next
    case (Symlink t)
    then have l: "fs p = Some (Symlink t)" using Some by simp
    have "\<And>u. fs t \<noteq> Some (Symlink u)"
      using assms l by (auto simp: not_link_def)
    then have "resolve fs p = Inr t"
      using l by (simp add: resolve_link)
    then show ?thesis using l by (simp add: read_file_def split: option.split node.split)
  qed
qed

lemma trim_Nil: "trim [] = []"
  by (simp add: trim_def)

section \<open>The publisher\<close>

lemma empty_publish_noop:
  "trim content = [] \<Longrightarrow> atomicStyleUpdate cfg content False s = (Inr False, s)"
  by (simp add: atomicStyleUpdate_def try_catch_def ret_def)

lemma publish_swap:
  assumes dp: "distinct_paths cfg"
    and link: "nodes s (shadowLink cfg) = Some (Symlink t)"
    and pt: "plain (nodes s) (tempFile cfg)" and pb: "plain (nodes s) (backupFile cfg)"
    and go: "trim c \<noteq> [] \<or> force"
  shows "atomicStyleUpdate cfg c force s =
     (Inr True,
      if t = backupFile cfg
      then s\<lparr>nodes := (nodes s)(tempFile cfg \<mapsto> File c, shadowLink cfg \<mapsto> Symlink (tempFile cfg),
                                 backupFile cfg \<mapsto> File c),
             trace := trace s @ [Written (tempFile cfg) c, Unlinked (shadowLink cfg),
                                 Linked (tempFile cfg) (shadowLink cfg), Written (backupFile cfg) c]\<rparr>
      else s\<lparr>nodes := (nodes s)(backupFile cfg \<mapsto> File c, shadowLink cfg \<mapsto> Symlink (backupFile cfg),
                                 tempFile cfg \<mapsto> File c),
             trace := trace s @ [Written (backupFile cfg) c, Unlinked (shadowLink cfg),
                                 Linked (backupFile cfg) (shadowLink cfg), Written (tempFile cfg) c]\<rparr>)"
proof -
  have d: "tempFile cfg \<noteq> backupFile cfg" "tempFile cfg \<noteq> shadowLink cfg"
    "backupFile cfg \<noteq> shadowLink cfg"
    using dp by (auto simp: distinct_paths_def)
  have pt': "plain ((nodes s)(backupFile cfg \<mapsto> File c, shadowLink cfg \<mapsto> Symlink (backupFile cfg))) (tempFile cfg)"
    using pt d by (simp add: plain_def)
  have pb': "plain ((nodes s)(tempFile cfg \<mapsto> File c, shadowLink cfg \<mapsto> Symlink (tempFile cfg))) (backupFile cfg)"
    using pb d by (simp add: plain_def)
  show ?thesis
    using go link d pt pb pt' pb'
    by (auto simp: atomicStyleUpdate_def try_catch_def bind_io_def seq_def ret_def readlink_def
        writeFile_plain unlink_def symlink_def Let_def)
qed




lemma publish_trace:
  assumes dp: "distinct_paths cfg"
    and nt: "not_link (nodes s) (tempFile cfg)" and nb: "not_link (nodes s) (backupFile cfg)"
  shows "trace (snd (atomicStyleUpdate cfg c force s)) = trace s @
     (if trim c = [] \<and> \<not> force then []
      else case nodes s (shadowLink cfg) of
        Some (Symlink t) \<Rightarrow>
          if t = backupFile cfg then
            if nodes s (tempFile cfg) = Some Dir then []
            else [Written (tempFile cfg) c, Unlinked (shadowLink cfg),
                  Linked (tempFile cfg) (shadowLink cfg)] @
                 (if nodes s (backupFile cfg) = Some Dir
                  then [Unlinked (shadowLink cfg), Linked t (shadowLink cfg)]
                  else [Written (backupFile cfg) c])
          else
            if nodes s (backupFile cfg) = Some Dir then []
            else [Written (backupFile cfg) c, Unlinked (shadowLink cfg),
                  Linked (backupFile cfg) (shadowLink cfg)] @
                 (if nodes s (tempFile cfg) = Some Dir
                  then [Unlinked (shadowLink cfg), Linked t (shadowLink cfg)]
                  else [Written (tempFile cfg) c])
      | _ \<Rightarrow>
          if nodes s (backupFile cfg) = Some Dir then []
          else Written (backupFile cfg) c #
               (if nodes s (shadowLink cfg) = None
                then Linked (backupFile cfg) (shadowLink cfg) #
                     (if nodes s (mainStylesLink cfg) = None
                      then [Linked (shadowLink cfg) (mainStylesLink cfg)] else [])
                else []))"
proof -
  have d: "tempFile cfg \<noteq> backupFile cfg" "tempFile cfg \<noteq> shadowLink cfg"
    "backupFile cfg \<noteq> shadowLink cfg" "tempFile cfg \<noteq> mainStylesLink cfg"
    "backupFile cfg \<noteq> mainStylesLink cfg" "shadowLink cfg \<noteq> mainStylesLink cfg"
    using dp by (auto simp: distinct_paths_def)
  have nt': "\<And>x y. not_link ((nodes s)(backupFile cfg \<mapsto> File x, shadowLink cfg \<mapsto> y)) (tempFile cfg)"
    using nt d by (simp add: not_link_def)
  have nb': "\<And>x y. not_link ((nodes s)(tempFile cfg \<mapsto> File x, shadowLink cfg \<mapsto> y)) (backupFile cfg)"
    using nb d by (simp add: not_link_def)
  show ?thesis
    using d nt nb nt' nb'
    by (auto simp: atomicStyleUpdate_def try_catch_def bind_io_def seq_def ret_def throw_def
        readlink_def writeFile_not_link unlink_def symlink_def Let_def
        split: option.splits node.splits)
qed

lemma publish_moments:
  assumes dp: "distinct_paths cfg"
    and nt: "not_link (nodes s) (tempFile cfg)" and nb: "not_link (nodes s) (backupFile cfg)"
    and m: "fs' \<in> set (observable (nodes s)
              (drop (length (trace s)) (trace (snd (atomicStyleUpdate cfg c force s)))))"
  shows "fs' (shadowLink cfg) = None \<or>
     (\<exists>b. fs' (shadowLink cfg) = Some (Symlink b) \<and> fs' b = Some (File c)) \<or>
     (fs' (shadowLink cfg) = nodes s (shadowLink cfg) \<and>
      (\<forall>b. nodes s (shadowLink cfg) = Some (Symlink b) \<longrightarrow> fs' b = nodes s b))"
proof -
  have d: "tempFile cfg \<noteq> backupFile cfg" "tempFile cfg \<noteq> shadowLink cfg"
    "backupFile cfg \<noteq> shadowLink cfg" "tempFile cfg \<noteq> mainStylesLink cfg"
    "backupFile cfg \<noteq> mainStylesLink cfg" "shadowLink cfg \<noteq> mainStylesLink cfg"
    using dp by (auto simp: distinct_paths_def)
  show ?thesis
    using m d nt nb unfolding publish_trace [OF dp nt nb]
    by (auto simp: not_link_def split: if_splits option.splits node.splits)
qed

lemma last_observable: "last (observable fs evs) = fold apply_event evs fs"
proof (induction evs arbitrary: fs)
  case Nil
  then show ?case by simp
next
  case (Cons e evs)
  have "observable (apply_event e fs) evs \<noteq> []" by (cases evs) simp_all
  then show ?case using Cons.IH [of "apply_event e fs"] by simp
qed

lemma publish_replay:
  assumes dp: "distinct_paths cfg"
    and nt: "not_link (nodes s) (tempFile cfg)" and nb: "not_link (nodes s) (backupFile cfg)"
  shows "nodes (snd (atomicStyleUpdate cfg c force s)) =
     fold apply_event (drop (length (trace s)) (trace (snd (atomicStyleUpdate cfg c force s))))
       (nodes s)"
proof -
  have d: "tempFile cfg \<noteq> backupFile cfg" "tempFile cfg \<noteq> shadowLink cfg"
    "backupFile cfg \<noteq> shadowLink cfg" "tempFile cfg \<noteq> mainStylesLink cfg"
    "backupFile cfg \<noteq> mainStylesLink cfg" "shadowLink cfg \<noteq> mainStylesLink cfg"
    using dp by (auto simp: distinct_paths_def)
  have nt': "\<And>x y. not_link ((nodes s)(backupFile cfg \<mapsto> File x, shadowLink cfg \<mapsto> y)) (tempFile cfg)"
    using nt d by (simp add: not_link_def)
  have nb': "\<And>x y. not_link ((nodes s)(tempFile cfg \<mapsto> File x, shadowLink cfg \<mapsto> y)) (backupFile cfg)"
    using nb d by (simp add: not_link_def)
  show ?thesis
    using d nt nb nt' nb'
    by (auto simp: atomicStyleUpdate_def try_catch_def bind_io_def seq_def ret_def throw_def
        readlink_def writeFile_not_link unlink_def symlink_def Let_def
        split: option.splits node.splits)
qed

text \<open>
  C7.  In a publish, the shadow link is pointed at a buffer only when the new content is in
  that buffer completely.  At every moment a reader can observe during \<open>atomicStyleUpdate\<close>,
  writes in progress included, a shadow link that points at some file either points at a file
  holding exactly the new content, or is the link as it was before the call with its target
  untouched; so reading through the shadow link gives the new content, or what it gave before
  the call, or fails, and never a truncated or partial content.  This covers the switch of an
  existing link, the restoring of the old link, and the first publish where there is no link
  to read.  The buffers and the target of the shadow link are taken not to be links
  themselves.
\<close>

theorem publish_links_complete_buffers:
  assumes nt: "not_link (nodes s) (tempFile (mergeCssPlugin rt outputFile dir options))"
    and nb: "not_link (nodes s) (backupFile (mergeCssPlugin rt outputFile dir options))"
    and tgt: "\<forall>t. nodes s (shadowLink (mergeCssPlugin rt outputFile dir options)) = Some (Symlink t)
                \<longrightarrow> not_link (nodes s) t"
    and m: "fs' \<in> set (observable (nodes s) (drop (length (trace s))
              (trace (snd (atomicStyleUpdate (mergeCssPlugin rt outputFile dir options)
                             newContent force s)))))"
  shows "(\<forall>b. fs' (shadowLink (mergeCssPlugin rt outputFile dir options)) = Some (Symlink b) \<longrightarrow>
            fs' b = Some (File newContent) \<or>
            nodes s (shadowLink (mergeCssPlugin rt outputFile dir options)) = Some (Symlink b) \<and>
            fs' b = nodes s b) \<and>
         (\<forall>c. read_file fs' (shadowLink (mergeCssPlugin rt outputFile dir options)) = Inr c \<longrightarrow>
            c = newContent \<or>
            read_file (nodes s) (shadowLink (mergeCssPlugin rt outputFile dir options)) = Inr c) \<and>
         last (observable (nodes s) (drop (length (trace s))
              (trace (snd (atomicStyleUpdate (mergeCssPlugin rt outputFile dir options)
                             newContent force s))))) =
           nodes (snd (atomicStyleUpdate (mergeCssPlugin rt outputFile dir options)
                         newContent force s))"
proof -
  define cfg where "cfg = mergeCssPlugin rt outputFile dir options"
  have dp: "distinct_paths cfg" unfolding cfg_def by (rule distinct_paths_mergeCssPlugin)
  have nt': "not_link (nodes s) (tempFile cfg)" and nb': "not_link (nodes s) (backupFile cfg)"
    using nt nb by (simp_all add: cfg_def)
  have tgt': "\<forall>t. nodes s (shadowLink cfg) = Some (Symlink t) \<longrightarrow> not_link (nodes s) t"
    using tgt by (simp add: cfg_def)
  have m': "fs' \<in> set (observable (nodes s)
              (drop (length (trace s)) (trace (snd (atomicStyleUpdate cfg newContent force s)))))"
    using m by (simp add: cfg_def)
  have inv: "fs' (shadowLink cfg) = None \<or>
     (\<exists>b. fs' (shadowLink cfg) = Some (Symlink b) \<and> fs' b = Some (File newContent)) \<or>
     (fs' (shadowLink cfg) = nodes s (shadowLink cfg) \<and>
      (\<forall>b. nodes s (shadowLink cfg) = Some (Symlink b) \<longrightarrow> fs' b = nodes s b))"
    using dp nt' nb' m' by (rule publish_moments)
  have links: "\<forall>b. fs' (shadowLink cfg) = Some (Symlink b) \<longrightarrow>
            fs' b = Some (File newContent) \<or>
            nodes s (shadowLink cfg) = Some (Symlink b) \<and> fs' b = nodes s b"
    using inv by auto
  have hop': "\<forall>t. fs' (shadowLink cfg) = Some (Symlink t) \<longrightarrow> not_link fs' t"
    using links tgt' by (auto simp: not_link_def)
  have reads: "\<forall>c. read_file fs' (shadowLink cfg) = Inr c \<longrightarrow>
            c = newContent \<or> read_file (nodes s) (shadowLink cfg) = Inr c"
    unfolding read_file_one_hop [OF hop'] read_file_one_hop [OF tgt']
    using inv by (auto split: option.splits node.splits)
  have final: "last (observable (nodes s) (drop (length (trace s))
              (trace (snd (atomicStyleUpdate cfg newContent force s))))) =
           nodes (snd (atomicStyleUpdate cfg newContent force s))"
    unfolding last_observable using publish_replay [OF dp nt' nb'] by simp
  show ?thesis
    using links reads final unfolding cfg_def by blast
qed

theorem publish_links_complete_buffers_witness:
  "not_link (nodes example_first) (tempFile (example_plugin None None)) \<and>
   not_link (nodes example_first) (backupFile (example_plugin None None)) \<and>
   nodes example_first ''/out/.styles.shadow.css'' = Some (Symlink ''/out/styles.temp.css'') \<and>
   (nodes example_first)(''/out/styles.backup.css'' \<mapsto> File []) \<in>
     set (observable (nodes example_first) (drop (length (trace example_first))
       (trace (snd (atomicStyleUpdate (example_plugin None None) ''x'' False example_first))))) \<and>
   (((nodes example_first)(''/out/styles.backup.css'' \<mapsto> File [])) ''/out/styles.temp.css'' =
      Some (File ''x'') \<or>
    nodes example_first (shadowLink (example_plugin None None)) =
      Some (Symlink ''/out/styles.temp.css'') \<and>
    ((nodes example_first)(''/out/styles.backup.css'' \<mapsto> File [])) ''/out/styles.temp.css'' =
      nodes example_first ''/out/styles.temp.css'')"
proof -
  let ?P = "mergeCssPlugin example_rt ''/out/merged.css'' ''/out'' (example_options None None)"
  let ?fs = "(nodes example_first)(''/out/styles.backup.css'' \<mapsto> File [])"
  have nt: "not_link (nodes example_first) (tempFile ?P)"
    unfolding example_plugin_def [symmetric] by code_simp
  have nb: "not_link (nodes example_first) (backupFile ?P)"
    unfolding example_plugin_def [symmetric] by code_simp
  have sh: "shadowLink ?P = ''/out/.styles.shadow.css''"
    unfolding example_plugin_def [symmetric] by code_simp
  have link: "nodes example_first ''/out/.styles.shadow.css'' = Some (Symlink ''/out/styles.temp.css'')"
    by code_simp
  have "not_link (nodes example_first) ''/out/styles.temp.css''"
    by code_simp
  then have tgt: "\<forall>t. nodes example_first (shadowLink ?P) = Some (Symlink t) \<longrightarrow>
      not_link (nodes example_first) t"
    using link sh by simp
  have evs: "drop (length (trace example_first))
       (trace (snd (atomicStyleUpdate ?P ''x'' False example_first))) =
     [Written ''/out/styles.backup.css'' ''x'', Unlinked ''/out/.styles.shadow.css'',
      Linked ''/out/styles.backup.css'' ''/out/.styles.shadow.css'',
      Written ''/out/styles.temp.css'' ''x'']"
    unfolding example_plugin_def [symmetric] by code_simp
  have m: "?fs \<in>
     set (observable (nodes example_first) (drop (length (trace example_first))
       (trace (snd (atomicStyleUpdate ?P ''x'' False example_first)))))"
    unfolding evs by simp
  have here: "?fs (shadowLink ?P) = Some (Symlink ''/out/styles.temp.css'')"
    using link sh by simp
  show ?thesis
    using publish_links_complete_buffers [OF nt nb tgt m] nt nb link m here
    by (simp add: example_plugin_def)
qed

section \<open>The setup\<close>

lemma ready_neq:
  assumes "ready rt cfg t c s" and "nodes s p = None"
  shows "p \<noteq> t" "p \<noteq> shadowLink cfg" "p \<noteq> mainStylesLink cfg"
    "p \<noteq> path_dirname rt (mainStylesLink cfg)" "p \<noteq> path_dirname rt (shadowLink cfg)"
  using assms by (auto simp: ready_def)

lemma ready_create:
  assumes "ready rt cfg t c s" and "nodes s p = None"
  shows "ready rt cfg t c (s\<lparr>nodes := (nodes s)(p \<mapsto> File []), trace := tr\<rparr>)"
  using assms ready_neq [OF assms] by (auto simp: ready_def plain_def)

lemma ready_handles:
  "ready rt cfg t c (s\<lparr>tempFileHandle := h\<rparr>) = ready rt cfg t c s"
  "ready rt cfg t c (s\<lparr>backupFileHandle := h\<rparr>) = ready rt cfg t c s"
  by (simp_all add: ready_def)

lemma setup_links_ready:
  assumes rd: "ready rt cfg t c s"
  shows "removeInvalidLink (shadowLink cfg) s = (Inr (), s)"
    "removeInvalidLink (mainStylesLink cfg) s = (Inr (), s)"
    "existsSync (nodes s) (shadowLink cfg)"
    "existsSync (nodes s) (mainStylesLink cfg)"
    "mkdir (path_dirname rt (mainStylesLink cfg)) s = (Inr (), s)"
    "mkdir (path_dirname rt (shadowLink cfg)) s = (Inr (), s)"
proof -
  have m: "nodes s (mainStylesLink cfg) = Some (Symlink (shadowLink cfg))"
    and sh: "nodes s (shadowLink cfg) = Some (Symlink t)"
    and f: "nodes s t = Some (File c)"
    using rd by (simp_all add: ready_def)
  show e1: "existsSync (nodes s) (shadowLink cfg)" using sh f by (rule existsSync_link)
  show e2: "existsSync (nodes s) (mainStylesLink cfg)" using m sh f by (rule existsSync_link2)
  have e0: "existsSync (nodes s) t" using f by (rule existsSync_plain)
  show "removeInvalidLink (shadowLink cfg) s = (Inr (), s)"
    using sh e0
    by (simp add: removeInvalidLink_def try_catch_def bind_io_def readlink_def gets_def when_io_def ret_def)
  show "removeInvalidLink (mainStylesLink cfg) s = (Inr (), s)"
    using m e1
    by (simp add: removeInvalidLink_def try_catch_def bind_io_def readlink_def gets_def when_io_def ret_def)
  show "mkdir (path_dirname rt (mainStylesLink cfg)) s = (Inr (), s)"
    "mkdir (path_dirname rt (shadowLink cfg)) s = (Inr (), s)"
    using rd by (simp_all add: ready_def mkdir_def)
qed

lemma ready_open:
  assumes rd: "ready rt cfg t c s" and p: "p = tempFile cfg \<or> p = backupFile cfg"
  shows "ready rt cfg t c (snd (open_append p s))"
proof -
  have pl: "plain (nodes s) p" using rd p by (auto simp: ready_def)
  show ?thesis
    using rd ready_create [OF rd, of p] by (simp add: open_append_plain [OF pl])
qed

lemma ready_openHandles: "ready rt cfg t c s \<Longrightarrow> ready rt cfg t c (openHandles cfg s)"
  by (simp add: openHandles_def Let_def ready_open ready_handles)

lemma setup_ready:
  assumes rd: "ready rt cfg t c s"
  shows "setupInitialFiles rt cfg s = (Inr (), openHandles cfg s)"
proof -
  define A where "A = bind_io (gets tempFileHandle) (\<lambda>h.
               when_io (h = None)
                 (bind_io (open_append (tempFile cfg)) (\<lambda>fh.
                    modify (\<lambda>s. s\<lparr>tempFileHandle := Some fh\<rparr>))))"
  define B where "B = bind_io (gets backupFileHandle) (\<lambda>h.
               when_io (h = None)
                 (bind_io (open_append (backupFile cfg)) (\<lambda>fh.
                    modify (\<lambda>s. s\<lparr>backupFileHandle := Some fh\<rparr>))))"
  define T where "T = seq (mkdir (path_dirname rt (mainStylesLink cfg)))
       (seq (mkdir (path_dirname rt (shadowLink cfg)))
       (seq (removeInvalidLink (shadowLink cfg))
       (seq (removeInvalidLink (mainStylesLink cfg))
       (seq (bind_io (gets (\<lambda>s. existsSync (nodes s) (shadowLink cfg))) (\<lambda>found.
               when_io (\<not> found) (symlink (backupFile cfg) (shadowLink cfg))))
            (bind_io (gets (\<lambda>s. existsSync (nodes s) (mainStylesLink cfg))) (\<lambda>found.
               when_io (\<not> found) (symlink (shadowLink cfg) (mainStylesLink cfg))))))))"
  have whole: "setupInitialFiles rt cfg =
      try_catch (seq A (seq B T)) (\<lambda>error. seq cleanup (throw error))"
    unfolding setupInitialFiles_def A_def B_def T_def ..
  have pt: "plain (nodes s) (tempFile cfg)" using rd by (simp add: ready_def)
  define s1 where "s1 = (if tempFileHandle s = None
                then (snd (open_append (tempFile cfg) s))\<lparr>tempFileHandle := Some (FileHandle (tempFile cfg))\<rparr>
                else s)"
  have r1: "ready rt cfg t c s1"
    using rd by (simp add: s1_def ready_open ready_handles)
  then have pb: "plain (nodes s1) (backupFile cfg)" by (simp add: ready_def)
  have r2: "ready rt cfg t c (openHandles cfg s)" using rd by (rule ready_openHandles)
  have o: "openHandles cfg s = (if backupFileHandle s1 = None
         then (snd (open_append (backupFile cfg) s1))\<lparr>backupFileHandle := Some (FileHandle (backupFile cfg))\<rparr>
         else s1)"
    by (simp add: openHandles_def s1_def Let_def)
  have step1: "A s = (Inr (), s1)"
    by (simp add: A_def s1_def bind_io_def gets_def when_io_def ret_def modify_def open_append_plain [OF pt])
  have step2: "B s1 = (Inr (), openHandles cfg s)"
    by (simp add: B_def o bind_io_def gets_def when_io_def ret_def modify_def open_append_plain [OF pb])
  have tail: "T (openHandles cfg s) = (Inr (), openHandles cfg s)"
    by (simp add: T_def seq_def bind_io_def setup_links_ready [OF r2] gets_def when_io_def ret_def)
  have "seq A (seq B T) s = (Inr (), openHandles cfg s)"
    by (simp add: seq_def bind_io_def step1 step2 tail)
  then show ?thesis
    by (simp add: whole try_catch_def)
qed

lemma openHandles_keeps:
  "lastKnownFiles (openHandles cfg s) = lastKnownFiles s"
  "lastKnownHash (openHandles cfg s) = lastKnownHash s"
  by (simp_all add: openHandles_def Let_def open_append_def split: sum.split option.split node.split)

lemma openHandles_existing:
  assumes "nodes s (tempFile cfg) = Some (File c1)" and "nodes s (backupFile cfg) = Some (File c2)"
  shows "nodes (openHandles cfg s) = nodes s" "trace (openHandles cfg s) = trace s"
  using assms
  by (simp_all add: openHandles_def Let_def open_append_plain plain_def)

lemma openHandles_nodes:
  assumes "plain (nodes s) (tempFile cfg)" and "plain (nodes s) (backupFile cfg)"
    and "tempFile cfg \<noteq> backupFile cfg"
  shows "nodes (openHandles cfg s) p =
     (if tempFileHandle s = None \<and> p = tempFile cfg \<and> nodes s (tempFile cfg) = None
      then Some (File [])
      else if backupFileHandle s = None \<and> p = backupFile cfg \<and> nodes s (backupFile cfg) = None
      then Some (File [])
      else nodes s p)"
proof -
  have pb: "plain ((nodes s)(tempFile cfg \<mapsto> File [])) (backupFile cfg)"
    using assms by (simp add: plain_def)
  show ?thesis
    using assms pb
    by (simp add: openHandles_def Let_def open_append_plain)
qed

lemma openHandles_frame:
  assumes "plain (nodes s) (tempFile cfg)" and "plain (nodes s) (backupFile cfg)"
    and "tempFile cfg \<noteq> backupFile cfg" and "nodes s p = Some n"
  shows "nodes (openHandles cfg s) p = Some n"
  using assms by (auto simp: openHandles_nodes)

lemma setup_after_opens:
  assumes pt: "plain (nodes s) (tempFile cfg)" and pb: "plain (nodes s) (backupFile cfg)"
    and d: "tempFile cfg \<noteq> backupFile cfg"
  shows "setupInitialFiles rt cfg s =
     try_catch (setupLinks rt cfg) (\<lambda>error. seq cleanup (throw error)) (openHandles cfg s)"
proof -
  define A where "A = bind_io (gets tempFileHandle) (\<lambda>h.
               when_io (h = None)
                 (bind_io (open_append (tempFile cfg)) (\<lambda>fh.
                    modify (\<lambda>s. s\<lparr>tempFileHandle := Some fh\<rparr>))))"
  define B where "B = bind_io (gets backupFileHandle) (\<lambda>h.
               when_io (h = None)
                 (bind_io (open_append (backupFile cfg)) (\<lambda>fh.
                    modify (\<lambda>s. s\<lparr>backupFileHandle := Some fh\<rparr>))))"
  have whole: "setupInitialFiles rt cfg =
      try_catch (seq A (seq B (setupLinks rt cfg))) (\<lambda>error. seq cleanup (throw error))"
    unfolding setupInitialFiles_def A_def B_def setupLinks_def ..
  define s1 where "s1 = (if tempFileHandle s = None
                then (snd (open_append (tempFile cfg) s))\<lparr>tempFileHandle := Some (FileHandle (tempFile cfg))\<rparr>
                else s)"
  have pb1: "plain (nodes s1) (backupFile cfg)"
    using pt pb d by (simp add: s1_def open_append_plain plain_def)
  have o: "openHandles cfg s = (if backupFileHandle s1 = None
         then (snd (open_append (backupFile cfg) s1))\<lparr>backupFileHandle := Some (FileHandle (backupFile cfg))\<rparr>
         else s1)"
    by (simp add: openHandles_def s1_def Let_def)
  have step1: "A s = (Inr (), s1)"
    by (simp add: A_def s1_def bind_io_def gets_def when_io_def ret_def modify_def open_append_plain [OF pt])
  have step2: "B s1 = (Inr (), openHandles cfg s)"
    by (simp add: B_def o bind_io_def gets_def when_io_def ret_def modify_def open_append_plain [OF pb1])
  have "seq A (seq B (setupLinks rt cfg)) s = setupLinks rt cfg (openHandles cfg s)"
    by (simp add: seq_def bind_io_def step1 step2)
  then show ?thesis
    by (simp add: whole try_catch_def)
qed

lemma setup_uninitialized:
  assumes dp: "distinct_paths cfg" and un: "uninitialized rt cfg s"
  shows "\<exists>s1 c. setupInitialFiles rt cfg s = (Inr (), s1) \<and> ready rt cfg (backupFile cfg) c s1 \<and>
     (\<forall>p n. nodes s p = Some n \<longrightarrow> nodes s1 p = Some n)"
proof -
  have d: "tempFile cfg \<noteq> backupFile cfg" "tempFile cfg \<noteq> shadowLink cfg"
    "backupFile cfg \<noteq> shadowLink cfg" "tempFile cfg \<noteq> mainStylesLink cfg"
    "backupFile cfg \<noteq> mainStylesLink cfg" "shadowLink cfg \<noteq> mainStylesLink cfg"
    using dp by (auto simp: distinct_paths_def)
  have pt: "plain (nodes s) (tempFile cfg)" and pb: "plain (nodes s) (backupFile cfg)"
    using un by (simp_all add: uninitialized_def)
  define s2 where "s2 = openHandles cfg s"
  have n2: "\<And>p. nodes s2 p =
     (if p = tempFile cfg \<and> nodes s (tempFile cfg) = None then Some (File [])
      else if p = backupFile cfg \<and> nodes s (backupFile cfg) = None then Some (File [])
      else nodes s p)"
    using un unfolding s2_def by (simp add: openHandles_nodes [OF pt pb d(1)] uninitialized_def)
  obtain cb where cb: "nodes s2 (backupFile cfg) = Some (File cb)"
    using pb d by (auto simp: n2 plain_def split: option.splits node.splits)
  obtain ct where ct: "nodes s2 (tempFile cfg) = Some (File ct)"
    using pt d by (auto simp: n2 plain_def split: option.splits node.splits)
  have sh: "nodes s2 (shadowLink cfg) = None" and mn: "nodes s2 (mainStylesLink cfg) = None"
    using un d by (simp_all add: n2 uninitialized_def)
  define d1 where "d1 = path_dirname rt (mainStylesLink cfg)"
  define d2 where "d2 = path_dirname rt (shadowLink cfg)"
  have dirs: "nodes s2 d1 = None \<or> nodes s2 d1 = Some Dir" "nodes s2 d2 = None \<or> nodes s2 d2 = Some Dir"
    "d1 \<noteq> tempFile cfg" "d1 \<noteq> backupFile cfg" "d1 \<noteq> shadowLink cfg" "d1 \<noteq> mainStylesLink cfg"
    "d2 \<noteq> tempFile cfg" "d2 \<noteq> backupFile cfg" "d2 \<noteq> shadowLink cfg" "d2 \<noteq> mainStylesLink cfg"
    using un by (auto simp: n2 uninitialized_def d1_def d2_def)
  have frame2: "\<And>p n. nodes s p = Some n \<Longrightarrow> nodes s2 p = Some n"
    by (auto simp: n2)
  have ex: "\<And>fs. fs (shadowLink cfg) = None \<Longrightarrow> \<not> existsSync fs (shadowLink cfg)"
    "\<And>fs. fs (mainStylesLink cfg) = None \<Longrightarrow> \<not> existsSync fs (mainStylesLink cfg)"
    by (simp_all add: existsSync_def resolve_plain)
  have "\<exists>s1. setupLinks rt cfg s2 = (Inr (), s1) \<and> ready rt cfg (backupFile cfg) cb s1 \<and>
     (\<forall>p n. nodes s2 p = Some n \<longrightarrow> nodes s1 p = Some n)"
    unfolding setupLinks_def d1_def [symmetric] d2_def [symmetric]
    using dirs d cb ct sh mn
    by (auto simp: seq_def bind_io_def mkdir_def removeInvalidLink_def try_catch_def readlink_def
        gets_def when_io_def ret_def symlink_def ex ready_def plain_def d1_def [symmetric]
        d2_def [symmetric])
  then obtain s1 where "setupLinks rt cfg s2 = (Inr (), s1)"
    and "ready rt cfg (backupFile cfg) cb s1"
    and "\<forall>p n. nodes s2 p = Some n \<longrightarrow> nodes s1 p = Some n"
    by blast
  then show ?thesis
    using frame2 unfolding setup_after_opens [OF pt pb d(1)] s2_def [symmetric]
    by (auto simp: try_catch_def)
qed

section \<open>The refresh\<close>

lemma ready_current:
  "ready rt cfg t c s \<Longrightarrow> currentContentOf cfg s = c"
  by (simp add: ready_def currentContentOf_def read_file_plain)

lemma ready_published:
  "ready rt cfg t c s \<Longrightarrow> read_file (nodes s) (mainStylesLink cfg) = Inr c"
  by (simp add: ready_def read_file_link2)

lemma ready_detector_update:
  "ready rt cfg t c (s\<lparr>lastKnownFiles := f, lastKnownHash := h\<rparr>) = ready rt cfg t c s"
  by (simp add: ready_def)

lemma republish_ready:
  assumes dp: "distinct_paths cfg" and rd: "ready rt cfg t c s" and go: "trim c' \<noteq> [] \<or> force"
  shows "\<exists>s' b. atomicStyleUpdate cfg c' force s = (Inr True, s') \<and> ready rt cfg b c' s' \<and>
     (b = tempFile cfg \<or> b = backupFile cfg) \<and>
     nodes s' (tempFile cfg) = Some (File c') \<and> nodes s' (backupFile cfg) = Some (File c') \<and>
     trace s' = trace s @ [Written (if t = backupFile cfg then tempFile cfg else backupFile cfg) c',
        Unlinked (shadowLink cfg),
        Linked (if t = backupFile cfg then tempFile cfg else backupFile cfg) (shadowLink cfg),
        Written (if t = backupFile cfg then backupFile cfg else tempFile cfg) c']"
proof -
  have d: "tempFile cfg \<noteq> backupFile cfg" "tempFile cfg \<noteq> shadowLink cfg"
    "backupFile cfg \<noteq> shadowLink cfg" "tempFile cfg \<noteq> mainStylesLink cfg"
    "backupFile cfg \<noteq> mainStylesLink cfg" "shadowLink cfg \<noteq> mainStylesLink cfg"
    using dp by (auto simp: distinct_paths_def)
  have link: "nodes s (shadowLink cfg) = Some (Symlink t)"
    and pt: "plain (nodes s) (tempFile cfg)" and pb: "plain (nodes s) (backupFile cfg)"
    using rd by (simp_all add: ready_def)
  have dirs: "path_dirname rt (mainStylesLink cfg) \<noteq> tempFile cfg"
    "path_dirname rt (mainStylesLink cfg) \<noteq> backupFile cfg"
    "path_dirname rt (mainStylesLink cfg) \<noteq> shadowLink cfg"
    "path_dirname rt (shadowLink cfg) \<noteq> tempFile cfg"
    "path_dirname rt (shadowLink cfg) \<noteq> backupFile cfg"
    "path_dirname rt (shadowLink cfg) \<noteq> shadowLink cfg"
    "mainStylesLink cfg \<noteq> tempFile cfg"
    using rd d by (auto simp: ready_def plain_def)
  show ?thesis
    unfolding publish_swap [OF dp link pt pb go]
    using rd d dirs by (auto simp: ready_def plain_def)
qed

lemma republish_frame:
  assumes dp: "distinct_paths cfg" and rd: "ready rt cfg t c s" and go: "trim c' \<noteq> [] \<or> force"
    and p: "p \<noteq> tempFile cfg" "p \<noteq> backupFile cfg" "p \<noteq> shadowLink cfg"
  shows "nodes (snd (atomicStyleUpdate cfg c' force s)) p = nodes s p"
proof -
  have link: "nodes s (shadowLink cfg) = Some (Symlink t)"
    and pt: "plain (nodes s) (tempFile cfg)" and pb: "plain (nodes s) (backupFile cfg)"
    using rd by (simp_all add: ready_def)
  show ?thesis
    unfolding publish_swap [OF dp link pt pb go] using p by simp
qed

lemma refresh_ready_no_fragments:
  assumes rd: "ready rt cfg t c s"
    and scan: "getAllFiles (outputDir cfg) module_css
        [absoluteOutputFile cfg, tempFile cfg, backupFile cfg] tree = Inr []"
  shows "snd (onSuccess rt cfg tree s) =
     (if trim c \<noteq> [] then snd (atomicStyleUpdate cfg c False (openHandles cfg s))
      else openHandles cfg s)"
proof -
  have r1: "ready rt cfg t c (openHandles cfg s)" using rd by (rule ready_openHandles)
  then have link: "nodes (openHandles cfg s) (shadowLink cfg) = Some (Symlink t)"
    and cur: "read_file (nodes (openHandles cfg s)) t = Inr c"
    by (simp_all add: ready_def read_file_plain)
  show ?thesis
    by (simp add: onSuccess_def try_catch_def bind_io_def seq_def lift_def ret_def
        readlink_def readFile_def setup_ready [OF rd] scan link cur empty_publish_noop trim_Nil
        split: prod.split sum.split)
qed

text \<open>
  C6.  \<open>atomicStyleUpdate\<close> called with empty content (or white space only) and without
  \<open>forceUpdate\<close> answers false and changes nothing: the links, the buffers, the trace and the
  plugin's variables are as before.  And a refresh that finds no fragment while an artifact
  is published (the main link resolves through the shadow link to a file with content \<open>c\<close>)
  leaves \<open>c\<close> as the content the main link resolves to.
\<close>

theorem empty_publish_keeps_artifact:
  "(trim content = [] \<longrightarrow> atomicStyleUpdate cfg content False s = (Inr False, s)) \<and>
   (ready rt (mergeCssPlugin rt outputFile dir options) t c s \<and>
    getAllFiles (outputDir (mergeCssPlugin rt outputFile dir options)) module_css
        [absoluteOutputFile (mergeCssPlugin rt outputFile dir options),
         tempFile (mergeCssPlugin rt outputFile dir options),
         backupFile (mergeCssPlugin rt outputFile dir options)] tree = Inr [] \<longrightarrow>
    read_file (nodes (snd (onSuccess rt (mergeCssPlugin rt outputFile dir options) tree s)))
      (mainStylesLink (mergeCssPlugin rt outputFile dir options)) = Inr c)"
proof (intro conjI impI)
  assume "trim content = []"
  then show "atomicStyleUpdate cfg content False s = (Inr False, s)"
    by (rule empty_publish_noop)
next
  define p where "p = mergeCssPlugin rt outputFile dir options"
  assume a: "ready rt (mergeCssPlugin rt outputFile dir options) t c s \<and>
    getAllFiles (outputDir (mergeCssPlugin rt outputFile dir options)) module_css
        [absoluteOutputFile (mergeCssPlugin rt outputFile dir options),
         tempFile (mergeCssPlugin rt outputFile dir options),
         backupFile (mergeCssPlugin rt outputFile dir options)] tree = Inr []"
  then have rd: "ready rt p t c s"
    and scan: "getAllFiles (outputDir p) module_css
        [absoluteOutputFile p, tempFile p, backupFile p] tree = Inr []"
    by (simp_all add: p_def)
  have dp: "distinct_paths p" unfolding p_def by (rule distinct_paths_mergeCssPlugin)
  have r1: "ready rt p t c (openHandles p s)" using rd by (rule ready_openHandles)
  have "read_file (nodes (snd (onSuccess rt p tree s))) (mainStylesLink p) = Inr c"
  proof (cases "trim c = []")
    case True
    then show ?thesis
      using refresh_ready_no_fragments [OF rd scan] ready_published [OF r1] by simp
  next
    case False
    then obtain s' b where "atomicStyleUpdate p c False (openHandles p s) = (Inr True, s')"
      and "ready rt p b c s'"
      using republish_ready [OF dp r1, of c False] by blast
    then show ?thesis
      using False refresh_ready_no_fragments [OF rd scan] ready_published [of rt p b c s'] by simp
  qed
  then show "read_file (nodes (snd (onSuccess rt (mergeCssPlugin rt outputFile dir options) tree s)))
      (mainStylesLink (mergeCssPlugin rt outputFile dir options)) = Inr c"
    by (simp add: p_def)
qed

theorem empty_publish_keeps_artifact_witness:
  "trim [] = [] \<and>
   atomicStyleUpdate (example_plugin None None) [] False example_first = (Inr False, example_first) \<and>
   ready example_rt (example_plugin None None) ''/out/styles.temp.css''
     ''/*merged*/.a{}\<newline>.a{}'' example_first \<and>
   read_file
     (nodes (snd (onSuccess example_rt (example_plugin None None) (Directory []) example_first)))
     (mainStylesLink (example_plugin None None)) = Inr ''/*merged*/.a{}\<newline>.a{}''"
proof -
  let ?P = "mergeCssPlugin example_rt ''/out/merged.css'' ''/out'' (example_options None None)"
  have rd: "ready example_rt ?P ''/out/styles.temp.css'' ''/*merged*/.a{}\<newline>.a{}'' example_first"
    unfolding example_plugin_def [symmetric] by code_simp
  have scan: "getAllFiles (outputDir ?P) module_css
      [absoluteOutputFile ?P, tempFile ?P, backupFile ?P] (Directory []) = Inr []"
    by simp
  show ?thesis
    using empty_publish_keeps_artifact [where content = "[]" and cfg = "?P" and s = example_first
        and rt = example_rt and outputFile = "''/out/merged.css''" and dir = "''/out''"
        and options = "example_options None None" and t = "''/out/styles.temp.css''"
        and c = "''/*merged*/.a{}\<newline>.a{}''" and tree = "Directory []"]
      rd scan
    by (simp add: example_plugin_def trim_Nil)
qed

lemma refresh_refreshed:
  assumes rf: "refreshed rt cfg tree c s"
  shows "snd (onSuccess rt cfg tree s) =
     (if verbose cfg \<and> trim c \<noteq> [] then snd (atomicStyleUpdate cfg c False (openHandles cfg s))
      else openHandles cfg s)"
proof -
  obtain moduleFiles where scan: "getAllFiles (outputDir cfg) module_css
        [absoluteOutputFile cfg, tempFile cfg, backupFile cfg] tree = Inr moduleFiles"
    and ne: "moduleFiles \<noteq> []" and di: "distinct moduleFiles"
    and hash: "calculateHash rt (nodes s) moduleFiles = Inr (lastKnownHash s)"
    and known: "lastKnownFiles s = set moduleFiles"
    using rf by (auto simp: refreshed_def split: sum.splits)
  obtain t where rd: "ready rt cfg t c s"
    using rf by (auto simp: refreshed_def)
  have bufs: "nodes s (tempFile cfg) = Some (File c)" "nodes s (backupFile cfg) = Some (File c)"
    using rf by (simp_all add: refreshed_def)
  have n1: "nodes (openHandles cfg s) = nodes s"
    using bufs by (rule openHandles_existing)
  have r1: "ready rt cfg t c (openHandles cfg s)" using rd by (rule ready_openHandles)
  then have link: "nodes s (shadowLink cfg) = Some (Symlink t)"
    and cur: "read_file (nodes s) t = Inr c"
    using rd by (simp_all add: ready_def read_file_plain)
  have same: "\<not> hasChanged moduleFiles (lastKnownHash s) (openHandles cfg s)"
    using di known by (simp add: hasChanged_def openHandles_keeps distinct_card list_all_iff)
  show ?thesis
    using ne
    by (simp add: onSuccess_def try_catch_def bind_io_def seq_def lift_def ret_def gets_def
        when_io_def readlink_def readFile_def setup_ready [OF rd] scan n1 link cur hash same
        split: prod.split sum.split)
qed

lemma scan_property:
  shows "getAllFiles dir pattern ex t = Inr fs \<Longrightarrow> \<forall>d n. pattern n \<longrightarrow> Q (path_join d n) \<Longrightarrow>
         \<forall>p\<in>set fs. Q p"
    and "scanEntries dir pattern ex es acc = Inr fs \<Longrightarrow> \<forall>d n. pattern n \<longrightarrow> Q (path_join d n) \<Longrightarrow>
         \<forall>p\<in>set acc. Q p \<Longrightarrow> \<forall>p\<in>set fs. Q p"
proof (induction dir pattern ex t and dir pattern ex es acc
    arbitrary: fs and fs rule: getAllFiles_scanEntries.induct)
  case (6 dir pattern exclude name entry rest files)
  let ?x = "path_join dir name"
  note run = "6.prems"(1) and j = "6.prems"(2) and acc = "6.prems"(3)
  show ?case
  proof (cases "?x \<in> set exclude")
    case True
    then have "scanEntries dir pattern exclude rest files = Inr fs"
      using run by (simp add: Let_def)
    then show ?thesis
      using "6.IH"(1) [OF refl True _ j acc] by blast
  next
    case False
    show ?thesis
    proof (cases "isDirectory entry")
      case True
      show ?thesis
      proof (cases "name = ''node_modules''")
        case nm: True
        have "scanEntries dir pattern exclude rest files = Inr fs"
          using run False True nm by (simp add: Let_def)
        then show ?thesis
          using "6.IH"(2) [OF refl False True nm _ j acc] by blast
      next
        case nm: False
        show ?thesis
        proof (cases "getAllFiles ?x pattern exclude entry")
          case (Inl e)
          then show ?thesis using run False True nm by (simp add: Let_def)
        next
          case (Inr sub)
          have subQ: "\<forall>a\<in>set sub. Q a"
            using "6.IH"(3) [OF refl False True nm Inr j] .
          have rest: "scanEntries dir pattern exclude rest (files @ sub) = Inr fs"
            using run False True nm Inr by (simp add: Let_def)
          have "\<forall>a\<in>set (files @ sub). Q a"
            using acc subQ by auto
          then show ?thesis
            using "6.IH"(4) [OF refl False True nm Inr rest j] by blast
        qed
      qed
    next
      case nd: False
      show ?thesis
      proof (cases "entry = RegularFile \<and> pattern name")
        case True
        have rest: "scanEntries dir pattern exclude rest (files @ [?x]) = Inr fs"
          using run False nd True by (simp add: Let_def)
        have "Q ?x" using True j by blast
        then have "\<forall>a\<in>set (files @ [?x]). Q a"
          using acc by auto
        then show ?thesis
          using "6.IH"(5) [OF refl False nd True rest j] by blast
      next
        case nr: False
        have rest: "scanEntries dir pattern exclude rest files = Inr fs"
          using run False nd nr by (simp add: Let_def del: de_Morgan_conj)
        show ?thesis
          using "6.IH"(6) [OF refl False nd nr rest j acc] by blast
      qed
    qed
  qed
qed simp_all

lemma scanned_fragment:
  assumes "getAllFiles dir module_css ex t = Inr fs" and "p \<in> set fs"
  shows "module_css p"
proof -
  have j: "\<forall>d n. module_css n \<longrightarrow> module_css (path_join d n)"
    by (auto simp: module_css_def path_join_def suffix_def)
  show ?thesis
    using scan_property(1) [OF assms(1) j] assms(2) by blast
qed

lemma publication_paths_not_fragments:
  "\<not> module_css (tempFile (mergeCssPlugin rt outputFile dir options))"
  "\<not> module_css (backupFile (mergeCssPlugin rt outputFile dir options))"
  "\<not> module_css (shadowLink (mergeCssPlugin rt outputFile dir options))"
  "\<not> module_css (mainStylesLink (mergeCssPlugin rt outputFile dir options))"
  unfolding mergeCssPlugin_def Let_def path_join_def module_css_def suffix_def
  by (auto dest!: arg_cong [where f = rev])

lemma commit_gives_refreshed:
  fixes rt outputFile dir options
  defines "P \<equiv> mergeCssPlugin rt outputFile dir options"
  assumes start: "ready rt P t0 c0 s0 \<or> uninitialized rt P s0"
    and run: "onSuccess rt P tree s0 = (r, s)"
    and changed: "detector s \<noteq> detector s0"
    and frag: "\<forall>moduleFiles. getAllFiles (outputDir P) module_css
                  [absoluteOutputFile P, tempFile P, backupFile P] tree = Inr moduleFiles \<longrightarrow>
                distinct moduleFiles \<and> (\<forall>p\<in>set moduleFiles. \<exists>c. nodes s0 p = Some (File c))"
  shows "\<exists>c. refreshed rt P tree c s"
proof -
  have dp: "distinct_paths P" unfolding P_def by (rule distinct_paths_mergeCssPlugin)
  have "committed rt P tree s0 s"
    using run changed by (rule refresh_commits)
  then obtain s1 moduleFiles currentHash combinedContent css s2 where
    su: "setupInitialFiles rt P s0 = (Inr (), s1)"
    and scan: "getAllFiles (outputDir P) module_css
          [absoluteOutputFile P, tempFile P, backupFile P] tree = Inr moduleFiles"
    and ne: "moduleFiles \<noteq> []"
    and hash: "calculateHash rt (nodes s1) moduleFiles = Inr currentHash"
    and pub: "atomicStyleUpdate P css False s1 = (Inr True, s2)"
    and fin: "s = s2\<lparr>lastKnownFiles := set moduleFiles, lastKnownHash := currentHash\<rparr>"
    unfolding committed_def by blast
  have di: "distinct moduleFiles"
    and reg: "\<forall>p\<in>set moduleFiles. \<exists>c. nodes s0 p = Some (File c)"
    using frag scan by blast+
  have "\<exists>t1 c1. ready rt P t1 c1 s1 \<and> (\<forall>p n. nodes s0 p = Some n \<longrightarrow> nodes s1 p = Some n)"
  proof (cases "uninitialized rt P s0")
    case True
    then show ?thesis
      using setup_uninitialized [OF dp True] su by auto
  next
    case False
    then have rd: "ready rt P t0 c0 s0" using start by simp
    have pt: "plain (nodes s0) (tempFile P)" and pb: "plain (nodes s0) (backupFile P)"
      using rd by (simp_all add: ready_def)
    have d: "tempFile P \<noteq> backupFile P" using dp by (simp add: distinct_paths_def)
    have "s1 = openHandles P s0"
      using su setup_ready [OF rd] by simp
    then show ?thesis
      using ready_openHandles [OF rd] openHandles_frame [OF pt pb d] by blast
  qed
  then obtain t1 c1 where r1: "ready rt P t1 c1 s1"
    and frame1: "\<forall>p n. nodes s0 p = Some n \<longrightarrow> nodes s1 p = Some n"
    by blast
  have go: "trim css \<noteq> [] \<or> False"
    using pub empty_publish_noop [of css P s1] by auto
  obtain s2' b where pub': "atomicStyleUpdate P css False s1 = (Inr True, s2')"
    and r2: "ready rt P b css s2'" and b: "b = tempFile P \<or> b = backupFile P"
    and bufs: "nodes s2' (tempFile P) = Some (File css)" "nodes s2' (backupFile P) = Some (File css)"
    using republish_ready [OF dp r1 go] by blast
  have s2: "s2' = s2" using pub pub' by simp
  have same: "map (read_file (nodes s2)) moduleFiles = map (read_file (nodes s1)) moduleFiles"
  proof (rule map_cong [OF refl])
    fix p assume p: "p \<in> set moduleFiles"
    then obtain c where c: "nodes s0 p = Some (File c)" using reg by blast
    then have c1: "nodes s1 p = Some (File c)" using frame1 by blast
    have "module_css p" using scan p by (rule scanned_fragment)
    then have np: "p \<noteq> tempFile P" "p \<noteq> backupFile P" "p \<noteq> shadowLink P"
      using publication_paths_not_fragments [of rt outputFile dir options]
      unfolding P_def by auto
    have "nodes s2 p = nodes s1 p"
      using republish_frame [OF dp r1 go np] pub by simp
    then show "read_file (nodes s2) p = read_file (nodes s1) p"
      using c1 by (simp add: read_file_plain)
  qed
  have hash2: "calculateHash rt (nodes s2) moduleFiles = Inr currentHash"
    using calculateHash_contents [OF same, of rt] hash by simp
  have "refreshed rt P tree css s"
    unfolding refreshed_def fin
    using scan ne di hash2 r2 b bufs s2
    by (auto simp: ready_detector_update)
  then show ?thesis ..
qed

text \<open>
  C1.  Take a refresh that has just committed (it replaced what the detector remembers),
  started from a state with nothing published or with an artifact published, over fragments
  that are distinct regular files.  A second refresh over the same tree then publishes
  byte-identical content: the main link resolves to the same content \<open>c\<close> before and after
  it, both buffers hold \<open>c\<close> before and after it, the detector remembers the same, and every
  write the second refresh makes goes to one of the two buffers and writes \<open>c\<close>, the content
  that buffer already holds.
\<close>

theorem repeated_refresh_same_content:
  fixes rt outputFile dir options
  defines "P \<equiv> mergeCssPlugin rt outputFile dir options"
  assumes start: "ready rt P t0 c0 s0 \<or> uninitialized rt P s0"
    and first: "onSuccess rt P tree s0 = (r, s)"
    and commit: "detector s \<noteq> detector s0"
    and fragments: "\<forall>moduleFiles. getAllFiles (outputDir P) module_css
                  [absoluteOutputFile P, tempFile P, backupFile P] tree = Inr moduleFiles \<longrightarrow>
                distinct moduleFiles \<and> (\<forall>p\<in>set moduleFiles. \<exists>c. nodes s0 p = Some (File c))"
  shows "\<exists>c. read_file (nodes s) (mainStylesLink P) = Inr c \<and>
             read_file (nodes (snd (onSuccess rt P tree s))) (mainStylesLink P) = Inr c \<and>
             nodes s (tempFile P) = Some (File c) \<and>
             nodes s (backupFile P) = Some (File c) \<and>
             nodes (snd (onSuccess rt P tree s)) (tempFile P) = Some (File c) \<and>
             nodes (snd (onSuccess rt P tree s)) (backupFile P) = Some (File c) \<and>
             detector (snd (onSuccess rt P tree s)) = detector s \<and>
             (\<forall>p c'. Written p c' \<in> set (drop (length (trace s))
                                            (trace (snd (onSuccess rt P tree s)))) \<longrightarrow>
                (p = tempFile P \<or> p = backupFile P) \<and> c' = c)"
proof -
  have dp: "distinct_paths P" unfolding P_def by (rule distinct_paths_mergeCssPlugin)
  obtain c where rf: "refreshed rt P tree c s"
    using commit_gives_refreshed [of rt outputFile dir options t0 c0 s0 tree r s]
      start first commit fragments unfolding P_def by blast
  obtain t where rd: "ready rt P t c s"
    using rf by (auto simp: refreshed_def)
  have bufs: "nodes s (tempFile P) = Some (File c)" "nodes s (backupFile P) = Some (File c)"
    using rf by (simp_all add: refreshed_def)
  have before: "read_file (nodes s) (mainStylesLink P) = Inr c"
    using rd by (rule ready_published)
  let ?o = "openHandles P s"
  have no: "nodes ?o = nodes s" and tro: "trace ?o = trace s"
    using bufs by (rule openHandles_existing)+
  have ro: "ready rt P t c ?o" using rd by (rule ready_openHandles)
  have deto: "detector ?o = detector s"
    by (simp add: detector_def openHandles_keeps)
  show ?thesis
  proof (cases "verbose P \<and> trim c \<noteq> []")
    case False
    then have "snd (onSuccess rt P tree s) = ?o"
      using refresh_refreshed [OF rf] by auto
    then show ?thesis
      using before bufs no tro deto by auto
  next
    case True
    then have go: "trim c \<noteq> [] \<or> False" by simp
    obtain s' b where pub: "atomicStyleUpdate P c False ?o = (Inr True, s')"
      and r': "ready rt P b c s'"
      and bufs': "nodes s' (tempFile P) = Some (File c)" "nodes s' (backupFile P) = Some (File c)"
      and tr': "trace s' = trace ?o @
        [Written (if t = backupFile P then tempFile P else backupFile P) c,
         Unlinked (shadowLink P),
         Linked (if t = backupFile P then tempFile P else backupFile P) (shadowLink P),
         Written (if t = backupFile P then backupFile P else tempFile P) c]"
      using republish_ready [OF dp ro go] by blast
    have fin: "snd (onSuccess rt P tree s) = s'"
      using True refresh_refreshed [OF rf] pub by simp
    have after: "read_file (nodes s') (mainStylesLink P) = Inr c"
      using r' by (rule ready_published)
    have det: "detector s' = detector s"
      using publish_detector [OF pub] deto by simp
    have writes: "\<forall>p c'. Written p c' \<in> set (drop (length (trace s)) (trace s')) \<longrightarrow>
        (p = tempFile P \<or> p = backupFile P) \<and> c' = c"
      unfolding tr' tro by auto
    show ?thesis
      unfolding fin using before after bufs bufs' det writes by blast
  qed
qed

theorem repeated_refresh_same_content_witness:
  "uninitialized example_rt (example_plugin None None) (initial example_fs) \<and>
   detector example_first \<noteq> detector (initial example_fs) \<and>
   read_file (nodes example_first) (mainStylesLink (example_plugin None None)) =
     Inr ''/*merged*/.a{}\<newline>.a{}'' \<and>
   read_file
     (nodes (snd (onSuccess example_rt (example_plugin None None) example_tree example_first)))
     (mainStylesLink (example_plugin None None)) = Inr ''/*merged*/.a{}\<newline>.a{}''"
proof -
  let ?P = "mergeCssPlugin example_rt ''/out/merged.css'' ''/out'' (example_options None None)"
  have un: "uninitialized example_rt ?P (initial example_fs)"
    unfolding example_plugin_def [symmetric] by code_simp
  then have start: "ready example_rt ?P [] [] (initial example_fs) \<or>
      uninitialized example_rt ?P (initial example_fs)"
    by simp
  have first: "onSuccess example_rt ?P example_tree (initial example_fs) =
     (fst (onSuccess example_rt ?P example_tree (initial example_fs)), example_first)"
    by (simp add: example_first_def example_plugin_def)
  have commit: "detector example_first \<noteq> detector (initial example_fs)"
    by code_simp
  have scan: "getAllFiles (outputDir ?P) module_css
      [absoluteOutputFile ?P, tempFile ?P, backupFile ?P] example_tree =
      Inr [''/out/a.module.css'', ''/out/b.module.css'']"
    unfolding example_plugin_def [symmetric] by code_simp
  have regular: "\<forall>p\<in>set [''/out/a.module.css'', ''/out/b.module.css''].
      \<exists>c. nodes (initial example_fs) p = Some (File c)"
    by (simp add: initial_def example_fs_def)
  have fragments: "\<forall>moduleFiles. getAllFiles (outputDir ?P) module_css
      [absoluteOutputFile ?P, tempFile ?P, backupFile ?P] example_tree = Inr moduleFiles \<longrightarrow>
      distinct moduleFiles \<and> (\<forall>p\<in>set moduleFiles. \<exists>c. nodes (initial example_fs) p = Some (File c))"
    unfolding scan using regular by simp
  have before: "read_file (nodes example_first) (mainStylesLink ?P) =
      Inr ''/*merged*/.a{}\<newline>.a{}''"
    unfolding example_plugin_def [symmetric] by code_simp
  show ?thesis
    using repeated_refresh_same_content [OF start first commit fragments] un commit before
    by (auto simp: example_plugin_def)
qed

text \<open>
  The second refresh does write to the buffers: with the default options, right after the
  first refresh of the example, it writes the published content to both buffers again and
  switches the shadow link.
\<close>

theorem repeated_refresh_writes_buffers:
  "detector example_first \<noteq> detector (initial example_fs) \<and>
   drop (length (trace example_first))
     (trace (snd (onSuccess example_rt (example_plugin None None) example_tree example_first))) =
     [Written ''/out/styles.backup.css'' ''/*merged*/.a{}\<newline>.a{}'',
      Unlinked ''/out/.styles.shadow.css'',
      Linked ''/out/styles.backup.css'' ''/out/.styles.shadow.css'',
      Written ''/out/styles.temp.css'' ''/*merged*/.a{}\<newline>.a{}'']"
  by code_simp

end
